theory Spec2Isabelle
  imports Main "HOL-Library.Word"
begin

unbundle bit_operations_syntax

section \<open>Values, exceptions and observable events\<close>

text \<open>
  Python \<open>bytes\<close> are lists of 8-bit words; a Python \<open>str\<close> is a list of Unicode code
  points. \<open>bytes_of\<close> is a bytes literal \<open>b'...'\<close>, \<open>ascii\<close> a str literal.
\<close>

type_synonym byte = "8 word"
type_synonym bytes = "byte list"
type_synonym str = "nat list"

definition bytes_of :: "string \<Rightarrow> bytes" where
  "bytes_of s = map of_char s"

definition ascii :: "string \<Rightarrow> str" where
  "ascii s = map of_char s"

text \<open>
  Exceptions are values. A message is kept as the parts of the format string that builds
  it: \<open>Lossy h\<close> stands for \<open>h.decode('utf-8', 'ignore')\<close>. \<open>UnicodeDecodeError\<close> carries
  the object, the start and end of the offending range and the reason, as Python's does.
  \<open>OtherError\<close> is any other subclass of \<open>Exception\<close> that a platform service raises
  (a missing file, malformed JSON or Base64, a DPAPI failure).
\<close>

datatype frag = Lit string | Num nat | Lossy bytes

datatype exn =
    ValueError "frag list"
  | TypeError
  | KeyError str
  | UnicodeDecodeError bytes nat nat string
  | OverflowError
  | OtherError string

text \<open>
  What the program does to the outside world, in order: the lines it prints (an f-string
  is the list of its parts) and the calls it makes to the platform and to the cipher.
\<close>

datatype piece = Txt string | Val str | Exc exn

datatype event =
    Print "piece list"
  | Call_getenv str
  | Call_open str
  | Call_CryptUnprotectData bytes "bytes option" "unit option" "unit option" nat
  | Call_AES_new bytes bytes
  | Call_decrypt_and_verify bytes bytes
  | Call_input string

text \<open>
  A computation inside a \<open>try\<close> block yields the events so far and either the exception
  that left the block or the value.
\<close>

type_synonym 'a comp = "event list \<times> (exn + 'a)"

definition ret :: "'a \<Rightarrow> 'a comp" where
  "ret x = ([], Inr x)"

definition raise :: "exn \<Rightarrow> 'a comp" where
  "raise e = ([], Inl e)"

definition emit :: "event \<Rightarrow> unit comp" where
  "emit ev = ([ev], Inr ())"

definition lift :: "exn + 'a \<Rightarrow> 'a comp" where
  "lift r = ([], r)"

definition and_then :: "'a comp \<Rightarrow> ('a \<Rightarrow> 'b comp) \<Rightarrow> 'b comp" where
  "and_then m f =
     (case m of
        (t, Inl e) \<Rightarrow> (t, Inl e)
      | (t, Inr x) \<Rightarrow> (case f x of (t', r) \<Rightarrow> (t @ t', r)))"

definition print :: "piece list \<Rightarrow> unit comp" where
  "print ps = emit (Print ps)"

section \<open>\<open>bytes.decode('utf-8')\<close>\<close>

text \<open>
  The strict UTF-8 decoder of CPython: the accepted sequences are the well-formed ones of
  the Unicode standard (no overlong forms, no surrogates, nothing above U+10FFFF); the
  first ill-formed sequence raises \<open>UnicodeDecodeError\<close> with its range and reason.
\<close>

definition is_continuation :: "byte \<Rightarrow> bool" where
  "is_continuation c = (0x80 \<le> c \<and> c < 0xC0)"

definition cons_ok :: "nat \<Rightarrow> (nat \<times> nat \<times> string) + str \<Rightarrow> (nat \<times> nat \<times> string) + str" where
  "cons_ok c r = (case r of Inl e \<Rightarrow> Inl e | Inr cs \<Rightarrow> Inr (c # cs))"

fun utf8_decode :: "nat \<Rightarrow> bytes \<Rightarrow> (nat \<times> nat \<times> string) + str" where
  "utf8_decode pos [] = Inr []"
| "utf8_decode pos (c # rest) =
     (if c < 0x80 then cons_ok (unat c) (utf8_decode (pos + 1) rest)
      else if c < 0xC2 then Inl (pos, pos + 1, ''invalid start byte'')
      else if c < 0xE0 then
        (case rest of
           [] \<Rightarrow> Inl (pos, pos + 1, ''unexpected end of data'')
         | c2 # r2 \<Rightarrow>
             if \<not> is_continuation c2 then Inl (pos, pos + 1, ''invalid continuation byte'')
             else cons_ok ((unat c - 0xC0) * 64 + (unat c2 - 0x80))
                    (utf8_decode (pos + 2) r2))
      else if c < 0xF0 then
        (case rest of
           [] \<Rightarrow> Inl (pos, pos + 1, ''unexpected end of data'')
         | c2 # r2 \<Rightarrow>
             if \<not> is_continuation c2 \<or> (if c2 < 0xA0 then c = 0xE0 else c = 0xED)
             then Inl (pos, pos + 1, ''invalid continuation byte'')
             else
               (case r2 of
                  [] \<Rightarrow> Inl (pos, pos + 2, ''unexpected end of data'')
                | c3 # r3 \<Rightarrow>
                    if \<not> is_continuation c3
                    then Inl (pos, pos + 2, ''invalid continuation byte'')
                    else cons_ok ((unat c - 0xE0) * 4096 + (unat c2 - 0x80) * 64
                                   + (unat c3 - 0x80))
                           (utf8_decode (pos + 3) r3)))
      else if c < 0xF5 then
        (case rest of
           [] \<Rightarrow> Inl (pos, pos + 1, ''unexpected end of data'')
         | c2 # r2 \<Rightarrow>
             if \<not> is_continuation c2 \<or> (if c2 < 0x90 then c = 0xF0 else c = 0xF4)
             then Inl (pos, pos + 1, ''invalid continuation byte'')
             else
               (case r2 of
                  [] \<Rightarrow> Inl (pos, pos + 2, ''unexpected end of data'')
                | c3 # r3 \<Rightarrow>
                    if \<not> is_continuation c3
                    then Inl (pos, pos + 2, ''invalid continuation byte'')
                    else
                      (case r3 of
                         [] \<Rightarrow> Inl (pos, pos + 3, ''unexpected end of data'')
                       | c4 # r4 \<Rightarrow>
                           if \<not> is_continuation c4
                           then Inl (pos, pos + 3, ''invalid continuation byte'')
                           else cons_ok ((unat c - 0xF0) * 262144 + (unat c2 - 0x80) * 4096
                                          + (unat c3 - 0x80) * 64 + (unat c4 - 0x80))
                                  (utf8_decode (pos + 4) r4))))
      else Inl (pos, pos + 1, ''invalid start byte''))"

definition decode_utf8 :: "bytes \<Rightarrow> exn + str" where
  "decode_utf8 bs =
     (case utf8_decode 0 bs of
        Inl (start, end, reason) \<Rightarrow> Inl (UnicodeDecodeError bs start end reason)
      | Inr s \<Rightarrow> Inr s)"

section \<open>The cipher: \<open>AES.new(key, AES.MODE_GCM, nonce=nonce)\<close>\<close>

subsection \<open>The AES block cipher (FIPS 197)\<close>

definition sbox :: "byte list" where
  "sbox =
    [0x63, 0x7c, 0x77, 0x7b, 0xf2, 0x6b, 0x6f, 0xc5, 0x30, 0x01, 0x67, 0x2b, 0xfe, 0xd7, 0xab, 0x76,
     0xca, 0x82, 0xc9, 0x7d, 0xfa, 0x59, 0x47, 0xf0, 0xad, 0xd4, 0xa2, 0xaf, 0x9c, 0xa4, 0x72, 0xc0,
     0xb7, 0xfd, 0x93, 0x26, 0x36, 0x3f, 0xf7, 0xcc, 0x34, 0xa5, 0xe5, 0xf1, 0x71, 0xd8, 0x31, 0x15,
     0x04, 0xc7, 0x23, 0xc3, 0x18, 0x96, 0x05, 0x9a, 0x07, 0x12, 0x80, 0xe2, 0xeb, 0x27, 0xb2, 0x75,
     0x09, 0x83, 0x2c, 0x1a, 0x1b, 0x6e, 0x5a, 0xa0, 0x52, 0x3b, 0xd6, 0xb3, 0x29, 0xe3, 0x2f, 0x84,
     0x53, 0xd1, 0x00, 0xed, 0x20, 0xfc, 0xb1, 0x5b, 0x6a, 0xcb, 0xbe, 0x39, 0x4a, 0x4c, 0x58, 0xcf,
     0xd0, 0xef, 0xaa, 0xfb, 0x43, 0x4d, 0x33, 0x85, 0x45, 0xf9, 0x02, 0x7f, 0x50, 0x3c, 0x9f, 0xa8,
     0x51, 0xa3, 0x40, 0x8f, 0x92, 0x9d, 0x38, 0xf5, 0xbc, 0xb6, 0xda, 0x21, 0x10, 0xff, 0xf3, 0xd2,
     0xcd, 0x0c, 0x13, 0xec, 0x5f, 0x97, 0x44, 0x17, 0xc4, 0xa7, 0x7e, 0x3d, 0x64, 0x5d, 0x19, 0x73,
     0x60, 0x81, 0x4f, 0xdc, 0x22, 0x2a, 0x90, 0x88, 0x46, 0xee, 0xb8, 0x14, 0xde, 0x5e, 0x0b, 0xdb,
     0xe0, 0x32, 0x3a, 0x0a, 0x49, 0x06, 0x24, 0x5c, 0xc2, 0xd3, 0xac, 0x62, 0x91, 0x95, 0xe4, 0x79,
     0xe7, 0xc8, 0x37, 0x6d, 0x8d, 0xd5, 0x4e, 0xa9, 0x6c, 0x56, 0xf4, 0xea, 0x65, 0x7a, 0xae, 0x08,
     0xba, 0x78, 0x25, 0x2e, 0x1c, 0xa6, 0xb4, 0xc6, 0xe8, 0xdd, 0x74, 0x1f, 0x4b, 0xbd, 0x8b, 0x8a,
     0x70, 0x3e, 0xb5, 0x66, 0x48, 0x03, 0xf6, 0x0e, 0x61, 0x35, 0x57, 0xb9, 0x86, 0xc1, 0x1d, 0x9e,
     0xe1, 0xf8, 0x98, 0x11, 0x69, 0xd9, 0x8e, 0x94, 0x9b, 0x1e, 0x87, 0xe9, 0xce, 0x55, 0x28, 0xdf,
     0x8c, 0xa1, 0x89, 0x0d, 0xbf, 0xe6, 0x42, 0x68, 0x41, 0x99, 0x2d, 0x0f, 0xb0, 0x54, 0xbb, 0x16]"

definition sub_byte :: "byte \<Rightarrow> byte" where
  "sub_byte x = sbox ! unat x"

definition xtime :: "byte \<Rightarrow> byte" where
  "xtime x = (if bit x 7 then push_bit 1 x XOR 0x1b else push_bit 1 x)"

definition xor_bytes :: "bytes \<Rightarrow> bytes \<Rightarrow> bytes" where
  "xor_bytes xs ys = map2 (\<lambda>x y. x XOR y) xs ys"

definition sub_bytes :: "bytes \<Rightarrow> bytes" where
  "sub_bytes s = map sub_byte s"

text \<open>The state is held column by column: byte \<open>r + 4 * c\<close> is row \<open>r\<close> of column \<open>c\<close>.\<close>

definition shift_rows :: "bytes \<Rightarrow> bytes" where
  "shift_rows s = map (\<lambda>i. s ! (i mod 4 + 4 * ((i div 4 + i mod 4) mod 4))) [0..<16]"

fun mix_column :: "bytes \<Rightarrow> bytes" where
  "mix_column [a0, a1, a2, a3] =
     [xtime a0 XOR (xtime a1 XOR a1) XOR a2 XOR a3,
      a0 XOR xtime a1 XOR (xtime a2 XOR a2) XOR a3,
      a0 XOR a1 XOR xtime a2 XOR (xtime a3 XOR a3),
      (xtime a0 XOR a0) XOR a1 XOR a2 XOR xtime a3]"
| "mix_column col = col"

definition mix_columns :: "bytes \<Rightarrow> bytes" where
  "mix_columns s = concat (map (\<lambda>c. mix_column (take 4 (drop (4 * c) s))) [0..<4])"

definition rcon :: "nat \<Rightarrow> byte" where
  "rcon j = (xtime ^^ (j - 1)) 1"

definition rot_word :: "bytes \<Rightarrow> bytes" where
  "rot_word w = drop 1 w @ take 1 w"

text \<open>
  The key schedule, for a key of \<open>Nk\<close> words (4, 6 or 8): \<open>expand_key Nk k w\<close> appends \<open>k\<close>
  more words to the schedule \<open>w\<close>.
\<close>

fun expand_key :: "nat \<Rightarrow> nat \<Rightarrow> bytes list \<Rightarrow> bytes list" where
  "expand_key Nk 0 w = w"
| "expand_key Nk (Suc k) w =
     (let i = length w;
          temp = last w;
          temp' = (if i mod Nk = 0
                   then xor_bytes (sub_bytes (rot_word temp)) [rcon (i div Nk), 0, 0, 0]
                   else if 6 < Nk \<and> i mod Nk = 4 then sub_bytes temp
                   else temp)
      in expand_key Nk k (w @ [xor_bytes (w ! (i - Nk)) temp']))"

definition key_expansion :: "bytes \<Rightarrow> bytes list" where
  "key_expansion key =
     (let Nk = length key div 4
      in expand_key Nk (4 * (Nk + 7) - Nk) (map (\<lambda>i. take 4 (drop (4 * i) key)) [0..<Nk]))"

definition round_key :: "bytes list \<Rightarrow> nat \<Rightarrow> bytes" where
  "round_key w r = concat (take 4 (drop (4 * r) w))"

definition aes_encrypt_block :: "bytes \<Rightarrow> bytes \<Rightarrow> bytes" where
  "aes_encrypt_block key block =
     (let Nr = length key div 4 + 6;
          w = key_expansion key;
          s0 = xor_bytes block (round_key w 0);
          s = foldl (\<lambda>s r. xor_bytes (mix_columns (shift_rows (sub_bytes s))) (round_key w r))
                s0 [1..<Nr]
      in xor_bytes (shift_rows (sub_bytes s)) (round_key w Nr))"

subsection \<open>Galois/Counter Mode (NIST SP 800-38D), as PyCryptodome runs it\<close>

text \<open>A 16-byte block is a 128-bit word, first byte most significant.\<close>

type_synonym block = "128 word"

definition block_of_bytes :: "bytes \<Rightarrow> block" where
  "block_of_bytes bs =
     foldl (\<lambda>acc x. push_bit 8 acc OR ucast x) 0 (take 16 (bs @ replicate 16 0))"

definition bytes_of_block :: "block \<Rightarrow> bytes" where
  "bytes_of_block w = map (\<lambda>i. ucast (drop_bit (8 * (15 - i)) w)) [0..<16]"

definition E :: "bytes \<Rightarrow> block \<Rightarrow> block" where
  "E key x = block_of_bytes (aes_encrypt_block key (bytes_of_block x))"

text \<open>Multiplication in GF(2^128): bit 127 of the word is the coefficient of \<open>x^0\<close>.\<close>

primrec gf_mult_loop :: "nat \<Rightarrow> block \<Rightarrow> block \<Rightarrow> block \<Rightarrow> block" where
  "gf_mult_loop 0 x v z = z"
| "gf_mult_loop (Suc n) x v z =
     gf_mult_loop n x
       (if bit v 0 then drop_bit 1 v XOR push_bit 120 0xE1 else drop_bit 1 v)
       (if bit x n then z XOR v else z)"

definition gf_mult :: "block \<Rightarrow> block \<Rightarrow> block" where
  "gf_mult x y = gf_mult_loop 128 x y 0"

definition blocks :: "bytes \<Rightarrow> block list" where
  "blocks bs = map (\<lambda>i. block_of_bytes (take 16 (drop (16 * i) bs))) [0..<(length bs + 15) div 16]"

definition ghash :: "block \<Rightarrow> block list \<Rightarrow> block" where
  "ghash h xs = foldl (\<lambda>y x. gf_mult (y XOR x) h) 0 xs"

text \<open>
  GHASH of a byte string padded with zeros to whole blocks, followed by the block of the
  two 64-bit bit lengths (associated data, which is empty here, and the string).
\<close>

definition ghash_len :: "block \<Rightarrow> bytes \<Rightarrow> block" where
  "ghash_len h bs = ghash h (blocks bs @ [of_nat (8 * length bs)])"

definition hash_subkey :: "bytes \<Rightarrow> block" where
  "hash_subkey key = E key 0"

definition j0 :: "bytes \<Rightarrow> bytes \<Rightarrow> block" where
  "j0 key nonce =
     (if length nonce = 12 then block_of_bytes (nonce @ [0, 0, 0, 1])
      else ghash_len (hash_subkey key) nonce)"

text \<open>The counter block \<open>i\<close> steps after \<open>J0\<close>: the low 32 bits count modulo \<open>2^32\<close>.\<close>

definition ctr_block :: "block \<Rightarrow> nat \<Rightarrow> block" where
  "ctr_block j i = (j AND NOT (mask 32)) OR ((j + of_nat i) AND mask 32)"

definition keystream :: "bytes \<Rightarrow> block \<Rightarrow> nat \<Rightarrow> bytes" where
  "keystream key j n =
     concat (map (\<lambda>i. bytes_of_block (E key (ctr_block j (i + 1)))) [0..<(n + 15) div 16])"

definition ctr_crypt :: "bytes \<Rightarrow> block \<Rightarrow> bytes \<Rightarrow> bytes" where
  "ctr_crypt key j data = xor_bytes data (keystream key j (length data))"

definition gcm_tag :: "bytes \<Rightarrow> bytes \<Rightarrow> bytes \<Rightarrow> bytes" where
  "gcm_tag key nonce ciphertext =
     bytes_of_block (E key (j0 key nonce) XOR ghash_len (hash_subkey key) ciphertext)"

text \<open>
  The cipher object. \<open>AES.new\<close> refuses an empty nonce, then a key that is not 16, 24 or
  32 bytes long (AES-128, AES-192, AES-256); the tag length is the default, 16.
\<close>

record GcmMode =
  cipher_key :: bytes
  cipher_nonce :: bytes

definition AES_new :: "bytes \<Rightarrow> bytes \<Rightarrow> GcmMode comp" where
  "AES_new key nonce =
     and_then (emit (Call_AES_new key nonce)) (\<lambda>_.
       if length nonce = 0 then raise (ValueError [Lit ''Nonce cannot be empty''])
       else if length key \<notin> {16, 24, 32}
       then raise (ValueError [Lit ''Incorrect AES key length ('', Num (length key),
                               Lit '' bytes)''])
       else ret \<lparr>cipher_key = key, cipher_nonce = nonce\<rparr>)"

text \<open>
  \<open>decrypt_and_verify\<close> decrypts in counter mode (which refuses more than \<open>2^32\<close> blocks),
  then compares the tag it computes over the ciphertext with the one received; a
  mismatch raises \<open>ValueError("MAC check failed")\<close> and the plaintext is not returned.
  (PyCryptodome compares keyed digests of the two tags; the model compares the tags.)
\<close>

definition decrypt_and_verify :: "GcmMode \<Rightarrow> bytes \<Rightarrow> bytes \<Rightarrow> bytes comp" where
  "decrypt_and_verify cipher ciphertext received_mac_tag =
     and_then (emit (Call_decrypt_and_verify ciphertext received_mac_tag)) (\<lambda>_.
       if 2 ^ 36 < int (length ciphertext) then raise OverflowError
       else
         let key = cipher_key cipher;
             nonce = cipher_nonce cipher;
             plaintext = ctr_crypt key (j0 key nonce) ciphertext
         in if gcm_tag key nonce ciphertext \<noteq> received_mac_tag
            then raise (ValueError [Lit ''MAC check failed''])
            else ret plaintext)"

text \<open>
  The sending side, \<open>encrypt_and_digest\<close> of the same cipher with no associated data:
  the ciphertext and its 16-byte tag.
\<close>

definition encrypt_and_digest :: "bytes \<Rightarrow> bytes \<Rightarrow> bytes \<Rightarrow> bytes \<times> bytes" where
  "encrypt_and_digest key nonce plaintext =
     (let ciphertext = ctr_crypt key (j0 key nonce) plaintext
      in (ciphertext, gcm_tag key nonce ciphertext))"

section \<open>\<open>decrypt_db_key\<close>\<close>

text \<open>
  The body of the \<open>try\<close> block. The slices are Python's: \<open>w[:3]\<close>, \<open>w[3:15]\<close>, \<open>w[15:]\<close>,
  \<open>c[-16:]\<close> (all of \<open>c\<close> when it is shorter than 16) and \<open>c[:-16]\<close> (empty then).
\<close>

definition decrypt_db_key_try :: "bytes \<Rightarrow> bytes \<Rightarrow> str comp" where
  "decrypt_db_key_try master_key wrapped_key =
     (let header = take 3 wrapped_key;
          nonce = take 12 (drop 3 wrapped_key);
          ciphertext_with_tag = drop 15 wrapped_key
      in if header \<noteq> bytes_of ''v10'' \<and> header \<noteq> bytes_of ''v11''
         then raise (ValueError
                [Lit (''Unexpected header format. Expected '' @ [CHR 0x27] @ ''v10''
                      @ [CHR 0x27] @ '' or '' @ [CHR 0x27] @ ''v11'' @ [CHR 0x27]
                      @ '', but got ''),
                 Lossy header, Lit ''.''])
         else
           let tag = drop (length ciphertext_with_tag - 16) ciphertext_with_tag;
               ciphertext = take (length ciphertext_with_tag - 16) ciphertext_with_tag
           in and_then (AES_new master_key nonce) (\<lambda>cipher.
              and_then (decrypt_and_verify cipher ciphertext tag) (\<lambda>decrypted_key_bytes.
              and_then (lift (decode_utf8 decrypted_key_bytes)) (\<lambda>final_key_hex.
              and_then (print [Txt ''   [SUCCESS] Final database key decrypted.'']) (\<lambda>_.
              ret (ascii ''0x'' @ final_key_hex))))))"

text \<open>
  The function: every exception of the body is caught, two lines are printed and \<open>None\<close>
  is returned.
\<close>

definition decrypt_db_key :: "bytes \<Rightarrow> bytes \<Rightarrow> event list \<times> str option" where
  "decrypt_db_key master_key wrapped_key =
     (case and_then (print [Txt ''-> Decrypting final database key with AES-256-GCM...''])
             (\<lambda>_. decrypt_db_key_try master_key wrapped_key) of
        (t, Inr final_key) \<Rightarrow> (t, Some final_key)
      | (t, Inl e) \<Rightarrow>
          (t @ [Print [Txt (''   [ERROR] Failed to decrypt final key. The MAC tag may have ''
                            @ ''failed, indicating corrupt data or a wrong master key.'')],
                Print [Txt ''   Details: '', Exc e]],
           None))"

section \<open>The platform\<close>

text \<open>
  What the program reads from its surroundings, as parameters: the environment variables,
  \<open>os.path.join\<close> on two or more strings, the text of a file (\<open>open\<close> and reading it),
  \<open>json.loads\<close>, \<open>base64.b64decode\<close> on a string, and DPAPI's
  \<open>win32crypt.CryptUnprotectData\<close>, which returns a description and the data.
\<close>

datatype json =
    JNull
  | JBool bool
  | JNumber string
  | JString str
  | JArray "json list"
  | JObject "(str \<times> json) list"

record platform =
  getenv :: "str \<Rightarrow> str option"
  path_join :: "str \<Rightarrow> str list \<Rightarrow> str"
  open_read :: "str \<Rightarrow> exn + str"
  json_loads :: "str \<Rightarrow> exn + json"
  b64decode :: "str \<Rightarrow> exn + bytes"
  CryptUnprotectData ::
    "bytes \<Rightarrow> bytes option \<Rightarrow> unit option \<Rightarrow> unit option \<Rightarrow> nat \<Rightarrow> exn + (str \<times> bytes)"

text \<open>\<open>obj[key]\<close> with a string key: only a dict has one, and only when the key is there.\<close>

fun getitem :: "json \<Rightarrow> str \<Rightarrow> exn + json" where
  "getitem (JObject kvs) k = (case map_of kvs k of None \<Rightarrow> Inl (KeyError k) | Some v \<Rightarrow> Inr v)"
| "getitem _ k = Inl TypeError"

definition os_getenv :: "platform \<Rightarrow> str \<Rightarrow> str option comp" where
  "os_getenv os name = and_then (emit (Call_getenv name)) (\<lambda>_. ret (getenv os name))"

text \<open>\<open>os.path.join\<close> raises \<open>TypeError\<close> when its first argument is \<open>None\<close>.\<close>

definition os_path_join :: "platform \<Rightarrow> str option \<Rightarrow> str list \<Rightarrow> str comp" where
  "os_path_join os a ps = (case a of None \<Rightarrow> raise TypeError | Some d \<Rightarrow> ret (path_join os d ps))"

text \<open>\<open>with open(path, 'r', encoding='utf-8') as f: json.load(f)\<close>\<close>

definition json_load_file :: "platform \<Rightarrow> str \<Rightarrow> json comp" where
  "json_load_file os path =
     and_then (emit (Call_open path)) (\<lambda>_.
     and_then (lift (open_read os path)) (\<lambda>text.
     lift (json_loads os text)))"

text \<open>\<open>base64.b64decode\<close> of a JSON value: anything but a string is a \<open>TypeError\<close>.\<close>

definition base64_b64decode :: "platform \<Rightarrow> json \<Rightarrow> bytes comp" where
  "base64_b64decode os v = (case v of JString s \<Rightarrow> lift (b64decode os s) | _ \<Rightarrow> raise TypeError)"

definition win32crypt_CryptUnprotectData ::
  "platform \<Rightarrow> bytes \<Rightarrow> bytes option \<Rightarrow> unit option \<Rightarrow> unit option \<Rightarrow> nat \<Rightarrow> (str \<times> bytes) comp" where
  "win32crypt_CryptUnprotectData os data entropy reserved prompt flags =
     and_then (emit (Call_CryptUnprotectData data entropy reserved prompt flags)) (\<lambda>_.
     lift (CryptUnprotectData os data entropy reserved prompt flags))"

section \<open>\<open>bytes.fromhex\<close>\<close>

text \<open>
  CPython's parser: ASCII white space is skipped before each byte, a byte is two
  hexadecimal digits, and anything else is a \<open>ValueError\<close> naming the position; a string
  with a non-ASCII character is refused at the first such character.
\<close>

definition is_space :: "nat \<Rightarrow> bool" where
  "is_space c = (c = 32 \<or> (9 \<le> c \<and> c \<le> 13))"

definition digit_value :: "nat \<Rightarrow> nat option" where
  "digit_value c =
     (if 48 \<le> c \<and> c \<le> 57 then Some (c - 48)
      else if 97 \<le> c \<and> c \<le> 102 then Some (c - 87)
      else if 65 \<le> c \<and> c \<le> 70 then Some (c - 55)
      else None)"

definition fromhex_error :: "nat \<Rightarrow> exn" where
  "fromhex_error pos =
     ValueError [Lit ''non-hexadecimal number found in fromhex() arg at position '', Num pos]"

definition cons_byte :: "byte \<Rightarrow> exn + bytes \<Rightarrow> exn + bytes" where
  "cons_byte x r = (case r of Inl e \<Rightarrow> Inl e | Inr xs \<Rightarrow> Inr (x # xs))"

fun fromhex_loop :: "nat \<Rightarrow> str \<Rightarrow> exn + bytes" where
  "fromhex_loop pos [] = Inr []"
| "fromhex_loop pos (c # rest) =
     (if is_space c then fromhex_loop (pos + 1) rest
      else
        (case digit_value c of
           None \<Rightarrow> Inl (fromhex_error pos)
         | Some hi \<Rightarrow>
             (case rest of
                [] \<Rightarrow> Inl (fromhex_error (pos + 1))
              | c2 # r2 \<Rightarrow>
                  (case digit_value c2 of
                     None \<Rightarrow> Inl (fromhex_error (pos + 1))
                   | Some lo \<Rightarrow> cons_byte (of_nat (16 * hi + lo)) (fromhex_loop (pos + 2) r2)))))"

fun first_non_ascii :: "nat \<Rightarrow> str \<Rightarrow> nat option" where
  "first_non_ascii pos [] = None"
| "first_non_ascii pos (c # cs) = (if 128 \<le> c then Some pos else first_non_ascii (pos + 1) cs)"

definition bytes_fromhex :: "json \<Rightarrow> bytes comp" where
  "bytes_fromhex v =
     (case v of
        JString s \<Rightarrow>
          (case first_non_ascii 0 s of
             Some i \<Rightarrow> raise (fromhex_error i)
           | None \<Rightarrow> lift (fromhex_loop 0 s))
      | _ \<Rightarrow> raise TypeError)"

section \<open>\<open>get_appdata_path\<close>, \<open>get_master_key\<close>, \<open>get_wrapped_db_key\<close>\<close>

definition get_appdata_path :: "platform \<Rightarrow> bool \<Rightarrow> str option comp" where
  "get_appdata_path os local =
     (if local then os_getenv os (ascii ''LOCALAPPDATA'')
      else os_getenv os (ascii ''APPDATA''))"

definition get_master_key_try :: "platform \<Rightarrow> bytes comp" where
  "get_master_key_try os =
     and_then (get_appdata_path os False) (\<lambda>appdata.
     and_then (os_path_join os appdata [ascii ''Signal'', ascii ''Local State''])
       (\<lambda>local_state_path.
     and_then (json_load_file os local_state_path) (\<lambda>local_state.
     and_then (lift (getitem local_state (ascii ''os_crypt''))) (\<lambda>os_crypt.
     and_then (lift (getitem os_crypt (ascii ''encrypted_key''))) (\<lambda>b64_master_key.
     and_then (base64_b64decode os b64_master_key) (\<lambda>encrypted_master_key_bytes.
     let encrypted_master_key = drop 5 encrypted_master_key_bytes
     in and_then (win32crypt_CryptUnprotectData os encrypted_master_key None None None 0)
       (\<lambda>unprotected.
     let master_key = snd unprotected
     in and_then (print [Txt ''   [SUCCESS] Master key decrypted.'']) (\<lambda>_.
     ret master_key))))))))"

definition get_master_key :: "platform \<Rightarrow> event list \<times> bytes option" where
  "get_master_key os =
     (case and_then (print [Txt ''-> Finding and decrypting master key...''])
             (\<lambda>_. get_master_key_try os) of
        (t, Inr master_key) \<Rightarrow> (t, Some master_key)
      | (t, Inl e) \<Rightarrow> (t @ [Print [Txt ''   [ERROR] Failed to get master key: '', Exc e]], None))"

definition get_wrapped_db_key_try :: "platform \<Rightarrow> bytes comp" where
  "get_wrapped_db_key_try os =
     and_then (get_appdata_path os False) (\<lambda>appdata.
     and_then (os_path_join os appdata [ascii ''Signal'', ascii ''config.json''])
       (\<lambda>config_path.
     and_then (json_load_file os config_path) (\<lambda>config.
     and_then (lift (getitem config (ascii ''encryptedKey''))) (\<lambda>wrapped_key_hex.
     and_then (bytes_fromhex wrapped_key_hex) (\<lambda>wrapped_key_bytes.
     and_then (print [Txt ''   [SUCCESS] Found and decoded wrapped key from config.json.''])
       (\<lambda>_.
     ret wrapped_key_bytes))))))"

definition get_wrapped_db_key :: "platform \<Rightarrow> event list \<times> bytes option" where
  "get_wrapped_db_key os =
     (case and_then (print [Txt ''-> Finding wrapped database key...''])
             (\<lambda>_. get_wrapped_db_key_try os) of
        (t, Inr wrapped_key_bytes) \<Rightarrow> (t, Some wrapped_key_bytes)
      | (t, Inl e) \<Rightarrow>
          (t @ [Print [Txt ''   [ERROR] Failed to get wrapped database key: '', Exc e]], None))"

section \<open>The main block\<close>

text \<open>
  \<open>if x:\<close> on a value that is \<open>None\<close>, bytes or a string: \<open>None\<close> and the empty value are
  false. \<open>when_truthy x f\<close> runs the body \<open>f\<close> on the value when it is true.
\<close>

fun when_truthy :: "'a list option \<Rightarrow> ('a list \<Rightarrow> event list) \<Rightarrow> event list" where
  "when_truthy None f = []"
| "when_truthy (Some v) f = (if v = [] then [] else f v)"

definition main :: "platform \<Rightarrow> event list" where
  "main os =
     [Print [Txt ''========================================''],
      Print [Txt ''Signal Desktop Decryption Tool (June 2025)''],
      Print [Txt ''========================================'']]
     @ (case get_master_key os of (t1, master_key) \<Rightarrow>
          t1 @ when_truthy master_key (\<lambda>master_key.
            case get_wrapped_db_key os of (t2, wrapped_key) \<Rightarrow>
              t2 @ when_truthy wrapped_key (\<lambda>wrapped_key.
                case decrypt_db_key master_key wrapped_key of (t3, final_key) \<Rightarrow>
                  t3 @ when_truthy final_key (\<lambda>final_key.
                    [Print [Txt (CHR 0x0A # ''----------------------------------------'')],
                     Print [Txt ''DECRYPTION COMPLETE!''],
                     Print [Txt ''Your Signal database key is:''],
                     Print [Val final_key],
                     Print [Txt ''----------------------------------------'']]))))
     @ [Print [Txt (CHR 0x0A # ''Script finished.'')],
        Call_input ''Press Enter to exit.'']"

section \<open>The analytics collaborator: \<open>SignalAnalytics\<close>\<close>

text \<open>
  The queries are written over the pandas operations they call, which are parameters of
  the model: \<open>'df\<close> is the DataFrame that \<open>self.data\<close> holds, \<open>'col\<close> what \<open>data[name]\<close>
  yields (a Series, or the sub-frame of a repeated column name), \<open>'keys\<close> the keys that
  \<open>.dt.date\<close> and \<open>.dt.hour\<close> yield, \<open>'cnt\<close> a Series of counts, and \<open>'py\<close> the plain values
  (dict, list) that a query returns. Each operation returns a value or raises, and one
  that raises leaves the DataFrame as it was; the assignment \<open>data[name] = value\<close> is the
  only one that yields a changed DataFrame.
\<close>

record ('df, 'col, 'keys, 'cnt, 'py) pandas =
  frame_getitem :: "'df \<Rightarrow> str \<Rightarrow> exn + 'col"
  frame_setitem :: "'df \<Rightarrow> str \<Rightarrow> 'col \<Rightarrow> exn + 'df"
  is_numeric_dtype :: "'col \<Rightarrow> bool"
  to_datetime_ms :: "'col \<Rightarrow> exn + 'col"
  dt_date :: "'col \<Rightarrow> exn + 'keys"
  dt_hour :: "'col \<Rightarrow> exn + 'keys"
  groupby_size :: "'df \<Rightarrow> 'keys \<Rightarrow> exn + 'cnt"
  value_counts :: "'col \<Rightarrow> exn + 'cnt"
  to_dict :: "'cnt \<Rightarrow> exn + 'py"
  head_items :: "'cnt \<Rightarrow> int \<Rightarrow> exn + 'py"
  peak_index :: "'cnt \<Rightarrow> exn + 'py"
  len_counts :: "'cnt \<Rightarrow> nat"
  has_column :: "'df \<Rightarrow> str \<Rightarrow> bool"
  len_data :: "'df \<Rightarrow> nat"

text \<open>
  The fields, in the source's words: \<open>data[name]\<close>; \<open>data[name] = value\<close>;
  \<open>pd.api.types.is_numeric_dtype(x)\<close>; \<open>pd.to_datetime(x, unit='ms')\<close>; \<open>x.dt.date\<close>;
  \<open>x.dt.hour\<close>; \<open>data.groupby(keys).size()\<close>; \<open>x.value_counts()\<close>; \<open>c.to_dict()\<close>;
  \<open>list(c[:n].items())\<close>; \<open>c[c == c.max()].index.tolist()\<close>; \<open>len(c)\<close>;
  \<open>name in data.columns\<close>; \<open>len(data)\<close>.
\<close>

definition try_then :: "exn + 'a \<Rightarrow> ('a \<Rightarrow> exn + 'b) \<Rightarrow> exn + 'b" where
  "try_then r f = (case r of Inl e \<Rightarrow> Inl e | Inr x \<Rightarrow> f x)"

datatype 'py result =
    Message_counts 'py 'py
  | Top_contacts 'py nat
  | Message_distribution 'py nat
  | Distribution_error string
  | Active_hours 'py 'py

text \<open>
  Each query takes the stored dataset and yields the stored dataset afterwards, with the
  value returned or the exception raised. An exception leaves the method at once: the
  stored dataset is then what the steps before it made of it.
\<close>

definition get_message_counts ::
  "('df, 'col, 'keys, 'cnt, 'py) pandas \<Rightarrow> 'df \<Rightarrow> 'df \<times> (exn + 'py result)" where
  "get_message_counts pd data =
     (case
        try_then (frame_getitem pd data (ascii ''timestamp'')) (\<lambda>timestamp.
        if is_numeric_dtype pd timestamp
        then try_then (frame_getitem pd data (ascii ''timestamp'')) (\<lambda>timestamp.
             try_then (to_datetime_ms pd timestamp) (\<lambda>converted.
             frame_setitem pd data (ascii ''timestamp'') converted))
        else Inr data)
      of
        Inl e \<Rightarrow> (data, Inl e)
      | Inr data' \<Rightarrow>
          (data',
           try_then (frame_getitem pd data' (ascii ''timestamp'')) (\<lambda>timestamp.
           try_then (dt_date pd timestamp) (\<lambda>dates.
           try_then (groupby_size pd data' dates) (\<lambda>by_day.
           try_then (frame_getitem pd data' (ascii ''timestamp'')) (\<lambda>timestamp.
           try_then (dt_hour pd timestamp) (\<lambda>hours.
           try_then (groupby_size pd data' hours) (\<lambda>by_hour.
           try_then (to_dict pd by_day) (\<lambda>by_day_dict.
           try_then (to_dict pd by_hour) (\<lambda>by_hour_dict.
           Inr (Message_counts by_day_dict by_hour_dict)))))))))))"

definition get_top_contacts ::
  "('df, 'col, 'keys, 'cnt, 'py) pandas \<Rightarrow> 'df \<Rightarrow> int \<Rightarrow> 'df \<times> (exn + 'py result)" where
  "get_top_contacts pd data n =
     (data,
      try_then (frame_getitem pd data (ascii ''contact'')) (\<lambda>contact.
      try_then (value_counts pd contact) (\<lambda>contact_counts.
      try_then (head_items pd contact_counts n) (\<lambda>top_contacts.
      Inr (Top_contacts top_contacts (len_counts pd contact_counts))))))"

definition get_message_distribution ::
  "('df, 'col, 'keys, 'cnt, 'py) pandas \<Rightarrow> 'df \<Rightarrow> 'df \<times> (exn + 'py result)" where
  "get_message_distribution pd data =
     (data,
      if \<not> has_column pd data (ascii ''type'')
      then Inr (Distribution_error ''Message type column not found'')
      else
        try_then (frame_getitem pd data (ascii ''type'')) (\<lambda>types.
        try_then (value_counts pd types) (\<lambda>type_counts.
        try_then (to_dict pd type_counts) (\<lambda>message_types.
        Inr (Message_distribution message_types (len_data pd data))))))"

definition get_active_hours ::
  "('df, 'col, 'keys, 'cnt, 'py) pandas \<Rightarrow> 'df \<Rightarrow> 'df \<times> (exn + 'py result)" where
  "get_active_hours pd data =
     (case
        try_then (frame_getitem pd data (ascii ''timestamp'')) (\<lambda>timestamp.
        if is_numeric_dtype pd timestamp
        then try_then (frame_getitem pd data (ascii ''timestamp'')) (\<lambda>timestamp.
             try_then (to_datetime_ms pd timestamp) (\<lambda>converted.
             frame_setitem pd data (ascii ''timestamp'') converted))
        else Inr data)
      of
        Inl e \<Rightarrow> (data, Inl e)
      | Inr data' \<Rightarrow>
          (data',
           try_then (frame_getitem pd data' (ascii ''timestamp'')) (\<lambda>timestamp.
           try_then (dt_hour pd timestamp) (\<lambda>hours.
           try_then (groupby_size pd data' hours) (\<lambda>hour_counts.
           try_then (peak_index pd hour_counts) (\<lambda>peak_hours.
           try_then (to_dict pd hour_counts) (\<lambda>hour_distribution.
           Inr (Active_hours hour_distribution peak_hours))))))))"

text \<open>The four queries, for statements about any of them.\<close>

datatype query =
    Message_counts_query
  | Top_contacts_query int
  | Message_distribution_query
  | Active_hours_query

definition run_query ::
  "('df, 'col, 'keys, 'cnt, 'py) pandas \<Rightarrow> query \<Rightarrow> 'df \<Rightarrow> 'df \<times> (exn + 'py result)" where
  "run_query pd q data =
     (case q of
        Message_counts_query \<Rightarrow> get_message_counts pd data
      | Top_contacts_query n \<Rightarrow> get_top_contacts pd data n
      | Message_distribution_query \<Rightarrow> get_message_distribution pd data
      | Active_hours_query \<Rightarrow> get_active_hours pd data)"

section \<open>Vocabulary of the properties\<close>

text \<open>The lines \<open>decrypt_db_key\<close> prints, named for the statements below.\<close>

abbreviation start_line :: event where
  "start_line \<equiv> Print [Txt ''-> Decrypting final database key with AES-256-GCM...'']"

abbreviation success_line :: event where
  "success_line \<equiv> Print [Txt ''   [SUCCESS] Final database key decrypted.'']"

abbreviation failure_lines :: "exn \<Rightarrow> event list" where
  "failure_lines e \<equiv>
     [Print [Txt (''   [ERROR] Failed to decrypt final key. The MAC tag may have ''
                  @ ''failed, indicating corrupt data or a wrong master key.'')],
      Print [Txt ''   Details: '', Exc e]]"

abbreviation header_error :: "bytes \<Rightarrow> exn" where
  "header_error h \<equiv>
     ValueError
       [Lit (''Unexpected header format. Expected '' @ [CHR 0x27] @ ''v10''
             @ [CHR 0x27] @ '' or '' @ [CHR 0x27] @ ''v11'' @ [CHR 0x27]
             @ '', but got ''),
        Lossy h, Lit ''.'']"

text \<open>
  What \<open>{e}\<close> prints for the \<open>UnicodeDecodeError\<close> of the codec \<open>utf-8\<close> on the object
  \<open>obj\<close>, from \<open>start\<close> to \<open>end\<close>: the offending byte in two hexadecimal digits and its
  position when the range is one byte of the object, the positions of the range alone
  otherwise; then the reason.
\<close>

definition hex2 :: "byte \<Rightarrow> string" where
  "hex2 x = [''0123456789abcdef'' ! (unat x div 16), ''0123456789abcdef'' ! (unat x mod 16)]"

definition str_UnicodeDecodeError :: "bytes \<Rightarrow> nat \<Rightarrow> nat \<Rightarrow> string \<Rightarrow> frag list" where
  "str_UnicodeDecodeError obj start end reason =
     (if start < length obj \<and> end = start + 1
      then [Lit ([CHR 0x27] @ ''utf-8'' @ [CHR 0x27] @ '' codec can'' @ [CHR 0x27]
                 @ ''t decode byte 0x''),
            Lit (hex2 (obj ! start)), Lit '' in position '', Num start, Lit '': '', Lit reason]
      else [Lit ([CHR 0x27] @ ''utf-8'' @ [CHR 0x27] @ '' codec can'' @ [CHR 0x27]
                 @ ''t decode bytes in position ''),
            Num start, Lit ''-'', Num (end - 1), Lit '': '', Lit reason])"

text \<open>Flipping bit \<open>i\<close> of a byte string (bit \<open>i mod 8\<close> of byte \<open>i div 8\<close>).\<close>

definition flip_bit_at :: "nat \<Rightarrow> bytes \<Rightarrow> bytes" where
  "flip_bit_at i bs = bs[i div 8 := (bs ! (i div 8)) XOR push_bit (i mod 8) 1]"

text \<open>
  The concrete scenario of the specification: the key is 32 zero bytes, the nonce 12 zero
  bytes, the plaintext 64 times the letter a.
\<close>

definition scenario_key :: bytes where
  "scenario_key = replicate 32 0"

definition scenario_nonce :: bytes where
  "scenario_nonce = replicate 12 0"

definition scenario_plaintext :: string where
  "scenario_plaintext = replicate 64 CHR ''a''"

definition scenario_ciphertext :: bytes where
  "scenario_ciphertext =
     fst (encrypt_and_digest scenario_key scenario_nonce (bytes_of scenario_plaintext))"

definition scenario_tag :: bytes where
  "scenario_tag =
     snd (encrypt_and_digest scenario_key scenario_nonce (bytes_of scenario_plaintext))"

text \<open>The first line of each stage, and the line that hands the key to the user.\<close>

abbreviation master_key_stage :: event where
  "master_key_stage \<equiv> Print [Txt ''-> Finding and decrypting master key...'']"

abbreviation wrapped_key_stage :: event where
  "wrapped_key_stage \<equiv> Print [Txt ''-> Finding wrapped database key...'']"

fun is_mark :: "event \<Rightarrow> bool" where
  "is_mark (Print [Txt s]) =
     (s = ''-> Finding and decrypting master key...''
      \<or> s = ''-> Finding wrapped database key...''
      \<or> s = ''-> Decrypting final database key with AES-256-GCM...'')"
| "is_mark (Print [Val v]) = True"
| "is_mark ev = False"

definition stage_marks :: "event list \<Rightarrow> event list" where
  "stage_marks t = filter is_mark t"

text \<open>An event that is not a read of an environment variable other than \<open>APPDATA\<close>.\<close>

fun roaming_only :: "event \<Rightarrow> bool" where
  "roaming_only (Call_getenv name) = (name = ascii ''APPDATA'')"
| "roaming_only ev = True"

text \<open>
  A concrete platform, for instances of the theorems. The master-key blob is the 14 bytes \<open>XXXXXprotected\<close>
  (its first five bytes are not \<open>DPAPI\<close>), DPAPI unprotects \<open>protected\<close> to the
  scenario's key, and \<open>config.json\<close> holds the scenario's wrapped key in hexadecimal.
\<close>

definition hex_digit :: "nat \<Rightarrow> nat" where
  "hex_digit n = (if n < 10 then 48 + n else 87 + n)"

definition hexlify :: "bytes \<Rightarrow> str" where
  "hexlify bs = concat (map (\<lambda>x. [hex_digit (unat x div 16), hex_digit (unat x mod 16)]) bs)"

definition scenario_wrapped :: bytes where
  "scenario_wrapped = bytes_of ''v10'' @ scenario_nonce @ scenario_ciphertext @ scenario_tag"

definition demo_join :: "str \<Rightarrow> str list \<Rightarrow> str" where
  "demo_join d ps = concat (d # map (\<lambda>p. of_char (CHR 0x5C) # p) ps)"

definition demo_appdata :: str where
  "demo_appdata = ascii ''C:/Users/u/AppData/Roaming''"

definition demo_platform :: platform where
  "demo_platform =
     \<lparr>getenv = (\<lambda>name. if name = ascii ''APPDATA'' then Some demo_appdata else None),
      path_join = demo_join,
      open_read =
        (\<lambda>path.
           if path = demo_join demo_appdata [ascii ''Signal'', ascii ''Local State'']
           then Inr (ascii ''local state'')
           else if path = demo_join demo_appdata [ascii ''Signal'', ascii ''config.json'']
           then Inr (ascii ''config'')
           else Inl (OtherError ''FileNotFoundError'')),
      json_loads =
        (\<lambda>text.
           if text = ascii ''local state''
           then Inr (JObject [(ascii ''os_crypt'',
                  JObject [(ascii ''encrypted_key'', JString (ascii ''WFhYWFhwcm90ZWN0ZWQ=''))])])
           else if text = ascii ''config''
           then Inr (JObject [(ascii ''encryptedKey'', JString (hexlify scenario_wrapped))])
           else Inl (OtherError ''JSONDecodeError'')),
      b64decode =
        (\<lambda>s. if s = ascii ''WFhYWFhwcm90ZWN0ZWQ='' then Inr (bytes_of ''XXXXXprotected'')
             else Inl (OtherError ''binascii.Error'')),
      CryptUnprotectData =
        (\<lambda>data entropy reserved prompt flags.
           if data = bytes_of ''protected'' \<and> entropy = None
           then Inr ([], scenario_key)
           else Inl (OtherError ''pywintypes.error''))\<rparr>"

text \<open>
  The stored dataset after the conversion that two of the queries make: when
  \<open>data['timestamp']\<close> exists, is of numeric dtype and converts, and the assignment goes
  through, it is the result of assigning the converted value to \<open>data['timestamp']\<close>;
  otherwise it is the dataset itself.
\<close>

definition with_datetime_timestamp ::
  "('df, 'col, 'keys, 'cnt, 'py) pandas \<Rightarrow> 'df \<Rightarrow> 'df" where
  "with_datetime_timestamp pd data =
     (case frame_getitem pd data (ascii ''timestamp'') of
        Inl e \<Rightarrow> data
      | Inr timestamp \<Rightarrow>
          if is_numeric_dtype pd timestamp
          then (case to_datetime_ms pd timestamp of
                  Inl e \<Rightarrow> data
                | Inr converted \<Rightarrow>
                    (case frame_setitem pd data (ascii ''timestamp'') converted of
                       Inl e \<Rightarrow> data
                     | Inr data' \<Rightarrow> data'))
          else data)"

text \<open>The queries that make the conversion.\<close>

definition converts :: "query \<Rightarrow> bool" where
  "converts q = (case q of Message_counts_query \<Rightarrow> True | Active_hours_query \<Rightarrow> True
                 | _ \<Rightarrow> False)"

text \<open>
  The behaviour of the assignment that the statement on repeated queries relies on, for
  a given dataset: when its timestamp is of numeric dtype and converts and the assignment
  goes through, \<open>data['timestamp']\<close> then reads the converted value, which is not of
  numeric dtype, and the \<open>contact\<close> and \<open>type\<close> columns, the presence of \<open>type\<close> and the
  number of rows are as before.
\<close>

definition assignment_replaces_timestamp ::
  "('df, 'col, 'keys, 'cnt, 'py) pandas \<Rightarrow> 'df \<Rightarrow> bool" where
  "assignment_replaces_timestamp pd data =
     (case frame_getitem pd data (ascii ''timestamp'') of
        Inl e \<Rightarrow> True
      | Inr timestamp \<Rightarrow>
          if \<not> is_numeric_dtype pd timestamp then True
          else
            (case to_datetime_ms pd timestamp of
               Inl e \<Rightarrow> True
             | Inr converted \<Rightarrow>
                 (case frame_setitem pd data (ascii ''timestamp'') converted of
                    Inl e \<Rightarrow> True
                  | Inr data' \<Rightarrow>
                      frame_getitem pd data' (ascii ''timestamp'') = Inr converted
                      \<and> \<not> is_numeric_dtype pd converted
                      \<and> frame_getitem pd data' (ascii ''contact'')
                          = frame_getitem pd data (ascii ''contact'')
                      \<and> frame_getitem pd data' (ascii ''type'')
                          = frame_getitem pd data (ascii ''type'')
                      \<and> has_column pd data' (ascii ''type'') = has_column pd data (ascii ''type'')
                      \<and> len_data pd data' = len_data pd data)))"

text \<open>
  A small table, for instances of the theorems: columns with distinct names and of one
  length, each of integers (milliseconds for a timestamp) or of datetimes (nanoseconds
  since the epoch), with the operations above on it.
\<close>

datatype column = Int64 "int list" | Datetime64 "int list"

type_synonym table = "(str \<times> column) list"

datatype cell = Int_cell int | Time_cell int

datatype plain = Dict "(cell \<times> nat) list" | Items "(cell \<times> nat) list" | Index "cell list"

text \<open>\<open>data[name] = column\<close> replaces the column of that name in place, or appends it.\<close>

fun set_column :: "table \<Rightarrow> str \<Rightarrow> column \<Rightarrow> table" where
  "set_column [] name c = [(name, c)]"
| "set_column ((n, c') # rest) name c =
     (if n = name then (n, c) # rest else (n, c') # set_column rest name c)"

definition column_length :: "column \<Rightarrow> nat" where
  "column_length c = (case c of Int64 xs \<Rightarrow> length xs | Datetime64 xs \<Rightarrow> length xs)"

definition date_of :: "int \<Rightarrow> int" where
  "date_of ns = ns div 86400000000000"

definition hour_of :: "int \<Rightarrow> int" where
  "hour_of ns = (ns div 3600000000000) mod 24"

text \<open>\<open>groupby(keys).size()\<close>: the distinct keys in increasing order, each with its count.\<close>

definition group_sizes :: "int list \<Rightarrow> (cell \<times> nat) list" where
  "group_sizes keys = map (\<lambda>k. (Int_cell k, count_list keys k)) (sort (remdups keys))"

definition cells :: "column \<Rightarrow> cell list" where
  "cells c = (case c of Int64 xs \<Rightarrow> map Int_cell xs | Datetime64 xs \<Rightarrow> map Time_cell xs)"

text \<open>
  \<open>value_counts()\<close>: the distinct values with their counts, the most frequent first.
  Pandas leaves the order of equal counts to its sorting routine; the table keeps them
  in the order of first appearance.
\<close>

definition count_values :: "column \<Rightarrow> (cell \<times> nat) list" where
  "count_values c =
     (let vs = cells c
      in sort_key (\<lambda>(v, n). - int n) (map (\<lambda>v. (v, count_list vs v)) (rev (remdups (rev vs)))))"

text \<open>The slice \<open>xs[:n]\<close> for an integer \<open>n\<close>.\<close>

definition slice_to :: "int \<Rightarrow> 'a list \<Rightarrow> 'a list" where
  "slice_to n xs = (if 0 \<le> n then take (nat n) xs else take (length xs - nat (- n)) xs)"

text \<open>
  \<open>pd.to_datetime(column, unit='ms')\<close> on an integer column: milliseconds become
  nanoseconds, and a value whose nanoseconds do not fit 64 bits raises
  \<open>OutOfBoundsDatetime\<close>; a datetime column is returned as it is. The \<open>.dt\<close> accessor
  exists on datetime columns only.
\<close>

definition table_pandas :: "(table, column, int list, (cell \<times> nat) list, plain) pandas" where
  "table_pandas =
     \<lparr>frame_getitem = (\<lambda>data name.
        case map_of data name of None \<Rightarrow> Inl (KeyError name) | Some c \<Rightarrow> Inr c),
      frame_setitem = (\<lambda>data name c. Inr (set_column data name c)),
      is_numeric_dtype = (\<lambda>c. case c of Int64 xs \<Rightarrow> True | Datetime64 xs \<Rightarrow> False),
      to_datetime_ms = (\<lambda>c.
        case c of
          Int64 xs \<Rightarrow>
            if list_all (\<lambda>x. \<bar>x\<bar> \<le> 9223372036854) xs
            then Inr (Datetime64 (map (\<lambda>x. x * 1000000) xs))
            else Inl (OtherError ''OutOfBoundsDatetime'')
        | Datetime64 xs \<Rightarrow> Inr c),
      dt_date = (\<lambda>c.
        case c of Datetime64 ns \<Rightarrow> Inr (map date_of ns)
        | Int64 xs \<Rightarrow> Inl (OtherError ''AttributeError'')),
      dt_hour = (\<lambda>c.
        case c of Datetime64 ns \<Rightarrow> Inr (map hour_of ns)
        | Int64 xs \<Rightarrow> Inl (OtherError ''AttributeError'')),
      groupby_size = (\<lambda>data keys. Inr (group_sizes keys)),
      value_counts = (\<lambda>c. Inr (count_values c)),
      to_dict = (\<lambda>counts. Inr (Dict counts)),
      head_items = (\<lambda>counts n. Inr (Items (slice_to n counts))),
      peak_index = (\<lambda>counts.
        Inr (Index (map fst (filter (\<lambda>(k, n). n = Max (set (map snd counts))) counts)))),
      len_counts = length,
      has_column = (\<lambda>data name. name \<in> set (map fst data)),
      len_data = (\<lambda>data. case data of [] \<Rightarrow> 0 | (n, c) # rest \<Rightarrow> column_length c)\<rparr>"

section \<open>Lemmas on the cipher and the decoder\<close>

lemma length_bytes_of: "length (bytes_of s) = length s"
  by (simp add: bytes_of_def)

lemma length_bytes_of_block: "length (bytes_of_block w) = 16"
  by (simp add: bytes_of_block_def)

lemma length_gcm_tag: "length (gcm_tag key nonce c) = 16"
  by (simp add: gcm_tag_def length_bytes_of_block)

lemma length_concat_blocks:
  "length (concat (map (\<lambda>i. bytes_of_block (f i)) [0..<m])) = 16 * m"
  by (induction m) (simp_all add: length_bytes_of_block)

lemma length_keystream: "length (keystream key j n) = 16 * ((n + 15) div 16)"
  unfolding keystream_def by (rule length_concat_blocks)

lemma keystream_covers: "n \<le> length (keystream key j n)"
  by (simp add: length_keystream)

lemma length_xor_bytes: "length (xor_bytes xs ys) = min (length xs) (length ys)"
  by (simp add: xor_bytes_def)

lemma xor_bytes_cancel: "length xs \<le> length ks \<Longrightarrow> xor_bytes (xor_bytes xs ks) ks = xs"
proof (induction xs arbitrary: ks)
  case Nil
  then show ?case by (simp add: xor_bytes_def)
next
  case (Cons x xs)
  then obtain k ks' where ks: "ks = k # ks'" by (cases ks) auto
  with Cons show ?case by (simp add: xor_bytes_def xor.assoc)
qed

lemma length_ctr_crypt: "length (ctr_crypt key j data) = length data"
  by (simp add: ctr_crypt_def length_xor_bytes keystream_covers)

text \<open>Counter mode is its own inverse.\<close>

lemma ctr_crypt_involution: "ctr_crypt key j (ctr_crypt key j data) = data"
proof -
  have "ctr_crypt key j (ctr_crypt key j data)
        = xor_bytes (xor_bytes data (keystream key j (length data)))
            (keystream key j (length data))"
    by (simp add: ctr_crypt_def length_xor_bytes keystream_covers)
  then show ?thesis by (simp add: xor_bytes_cancel keystream_covers)
qed

lemma encrypt_and_digest_parts:
  "fst (encrypt_and_digest k n p) = ctr_crypt k (j0 k n) p"
  "snd (encrypt_and_digest k n p) = gcm_tag k n (fst (encrypt_and_digest k n p))"
  by (simp_all add: encrypt_and_digest_def Let_def)

lemma unat_of_char_byte: "unat (of_char c :: byte) = of_char c"
proof -
  have "(of_char c :: byte) = of_nat (of_char c)" by (simp add: of_nat_of_char)
  then have "unat (of_char c :: byte) = (of_char c :: nat) mod 256"
    by (simp add: unat_of_nat)
  then show ?thesis by simp
qed

lemma of_char_byte_less: "((of_char c :: byte) < 0x80) = ((of_char c :: nat) < 128)"
  by (simp add: word_less_nat_alt unat_of_char_byte)

text \<open>ASCII bytes decode to the same characters.\<close>

lemma utf8_decode_ascii:
  "\<forall>c \<in> set s. (of_char c :: nat) < 128 \<Longrightarrow> utf8_decode pos (bytes_of s) = Inr (ascii s)"
proof (induction s arbitrary: pos)
  case Nil
  then show ?case by (simp add: bytes_of_def ascii_def)
next
  case (Cons c s)
  then have "utf8_decode (pos + 1) (bytes_of s) = Inr (ascii s)" by simp
  moreover have "(of_char c :: byte) < 0x80" using Cons.prems by (simp add: of_char_byte_less)
  ultimately show ?case
    using Cons.prems by (simp add: bytes_of_def ascii_def cons_ok_def unat_of_char_byte)
qed

lemma decode_utf8_ascii:
  "\<forall>c \<in> set s. (of_char c :: nat) < 128 \<Longrightarrow> decode_utf8 (bytes_of s) = Inr (ascii s)"
  by (simp add: decode_utf8_def utf8_decode_ascii)

lemma hex_chars_ascii:
  "c \<in> set ''0123456789abcdefABCDEF'' \<Longrightarrow> (of_char c :: nat) < 128"
  by auto

lemma push_bit_one_nonzero: "m < 8 \<Longrightarrow> (push_bit m 1 :: byte) \<noteq> 0"
  by simp

lemma xor_changes: "(y :: byte) \<noteq> 0 \<Longrightarrow> x XOR y \<noteq> x"
proof
  assume y: "y \<noteq> 0" and e: "x XOR y = x"
  have "y = x XOR (x XOR y)" by (simp add: xor.assoc [symmetric])
  also have "\<dots> = 0" by (simp only: e xor_self_eq)
  finally show False using y by simp
qed

lemma flip_bit_at_changes:
  assumes "i < 8 * length bs"
  shows "flip_bit_at i bs \<noteq> bs" and "length (flip_bit_at i bs) = length bs"
proof -
  have j: "i div 8 < length bs" using assms by simp
  have "(push_bit (i mod 8) 1 :: byte) \<noteq> 0"
    by (rule push_bit_one_nonzero) simp
  then have "(bs ! (i div 8)) XOR push_bit (i mod 8) 1 \<noteq> bs ! (i div 8)"
    by (rule xor_changes)
  then have "flip_bit_at i bs ! (i div 8) \<noteq> bs ! (i div 8)"
    using j by (simp add: flip_bit_at_def)
  then show "flip_bit_at i bs \<noteq> bs" by auto
  show "length (flip_bit_at i bs) = length bs" by (simp add: flip_bit_at_def)
qed

section \<open>The paths through \<open>decrypt_db_key\<close>\<close>

lemma and_then_emit: "and_then (emit ev) f = (case f () of (t, r) \<Rightarrow> (ev # t, r))"
  by (simp add: and_then_def emit_def)

lemma and_then_print: "and_then (print ps) f = (case f () of (t, r) \<Rightarrow> (Print ps # t, r))"
  by (simp add: print_def and_then_emit)

lemma and_then_ret: "and_then (ret x) f = f x"
  by (simp add: and_then_def ret_def split: prod.splits)

lemma and_then_raise: "and_then (raise e) f = raise e"
  by (simp add: and_then_def raise_def)

lemma and_then_lift_Inr: "and_then (lift (Inr x)) f = f x"
  by (simp add: and_then_def lift_def split: prod.splits)

lemma and_then_lift_Inl: "and_then (lift (Inl e)) f = raise e"
  by (simp add: and_then_def lift_def raise_def)

lemmas comp_simps = and_then_emit and_then_print and_then_ret and_then_raise
  and_then_lift_Inr and_then_lift_Inl

lemma decrypt_db_key_of_try:
  "decrypt_db_key k w =
     (case decrypt_db_key_try k w of
        (t, Inr v) \<Rightarrow> (start_line # t, Some v)
      | (t, Inl e) \<Rightarrow> (start_line # t @ failure_lines e, None))"
  by (simp add: decrypt_db_key_def and_then_print split: prod.splits sum.splits)

lemma AES_new_ok:
  "nonce \<noteq> [] \<Longrightarrow> length key \<in> {16, 24, 32} \<Longrightarrow>
   AES_new key nonce = ([Call_AES_new key nonce], Inr \<lparr>cipher_key = key, cipher_nonce = nonce\<rparr>)"
  by (simp add: AES_new_def comp_simps ret_def)

lemma AES_new_refuses:
  "nonce = [] \<or> length key \<notin> {16, 24, 32} \<Longrightarrow>
   \<exists>e. AES_new key nonce = ([Call_AES_new key nonce], Inl e)"
  by (auto simp add: AES_new_def comp_simps raise_def)

lemma decrypt_try_bad_header:
  "take 3 w \<noteq> bytes_of ''v10'' \<Longrightarrow> take 3 w \<noteq> bytes_of ''v11'' \<Longrightarrow>
   decrypt_db_key_try k w = raise (header_error (take 3 w))"
  by (simp add: decrypt_db_key_try_def)

lemma decrypt_db_key_bad_header:
  assumes "take 3 w \<noteq> bytes_of ''v10''" and "take 3 w \<noteq> bytes_of ''v11''"
  shows "decrypt_db_key k w = (start_line # failure_lines (header_error (take 3 w)), None)"
  unfolding decrypt_db_key_of_try decrypt_try_bad_header [OF assms] by (simp add: raise_def)

lemma decrypt_db_key_AES_new_refuses:
  assumes "take 3 w = bytes_of ''v10'' \<or> take 3 w = bytes_of ''v11''"
    and "take 12 (drop 3 w) = [] \<or> length k \<notin> {16, 24, 32}"
  shows "\<exists>e. decrypt_db_key k w
              = (start_line # Call_AES_new k (take 12 (drop 3 w)) # failure_lines e, None)"
proof -
  from AES_new_refuses [OF assms(2)] obtain e
    where "AES_new k (take 12 (drop 3 w)) = ([Call_AES_new k (take 12 (drop 3 w))], Inl e)"
    by blast
  then have "decrypt_db_key k w
             = (start_line # Call_AES_new k (take 12 (drop 3 w)) # failure_lines e, None)"
    using assms(1)
    by (auto simp add: decrypt_db_key_of_try decrypt_db_key_try_def Let_def and_then_def)
  then show ?thesis by blast
qed

text \<open>The run of the cipher, once the header, the nonce and the key length are accepted.\<close>

lemma decrypt_try_run:
  assumes "take 3 w = bytes_of ''v10'' \<or> take 3 w = bytes_of ''v11''"
    and "take 12 (drop 3 w) \<noteq> []" and "length k \<in> {16, 24, 32}"
  shows "decrypt_db_key_try k w =
    (let nonce = take 12 (drop 3 w);
         body = drop 15 w;
         tag = drop (length body - 16) body;
         ciphertext = take (length body - 16) body
     in if 2 ^ 36 < int (length ciphertext)
        then ([Call_AES_new k nonce, Call_decrypt_and_verify ciphertext tag], Inl OverflowError)
        else if gcm_tag k nonce ciphertext \<noteq> tag
        then ([Call_AES_new k nonce, Call_decrypt_and_verify ciphertext tag],
              Inl (ValueError [Lit ''MAC check failed'']))
        else (case decode_utf8 (ctr_crypt k (j0 k nonce) ciphertext) of
                Inl e \<Rightarrow> ([Call_AES_new k nonce, Call_decrypt_and_verify ciphertext tag], Inl e)
              | Inr s \<Rightarrow> ([Call_AES_new k nonce, Call_decrypt_and_verify ciphertext tag,
                           success_line],
                          Inr (ascii ''0x'' @ s))))"
proof -
  have n: "AES_new k (take 12 (drop 3 w))
           = ([Call_AES_new k (take 12 (drop 3 w))],
              Inr \<lparr>cipher_key = k, cipher_nonce = take 12 (drop 3 w)\<rparr>)"
    using assms(2,3) by (rule AES_new_ok)
  show ?thesis
    using assms(1)
    by (auto simp add: decrypt_db_key_try_def Let_def n and_then_def decrypt_and_verify_def
        emit_def raise_def ret_def lift_def print_def split: sum.splits)
qed

lemma layout_slices:
  assumes "length h = 3" and "length n = 12" and "length t = 16"
  shows "take 3 (h @ n @ c @ t) = h"
    and "take 12 (drop 3 (h @ n @ c @ t)) = n"
    and "drop 15 (h @ n @ c @ t) = c @ t"
    and "drop (length (c @ t) - 16) (c @ t) = t"
    and "take (length (c @ t) - 16) (c @ t) = c"
  using assms by simp_all

text \<open>The same run, on a wrapped value given by its four parts.\<close>

lemma decrypt_db_key_layout:
  assumes h: "h = bytes_of ''v10'' \<or> h = bytes_of ''v11''"
    and n: "length n = 12" and t: "length t = 16" and k: "length k \<in> {16, 24, 32}"
  shows "decrypt_db_key k (h @ n @ c @ t) =
    (if 2 ^ 36 < int (length c)
     then (start_line # [Call_AES_new k n, Call_decrypt_and_verify c t]
           @ failure_lines OverflowError, None)
     else if gcm_tag k n c \<noteq> t
     then (start_line # [Call_AES_new k n, Call_decrypt_and_verify c t]
           @ failure_lines (ValueError [Lit ''MAC check failed'']), None)
     else (case decode_utf8 (ctr_crypt k (j0 k n) c) of
             Inl e \<Rightarrow>
               (start_line # [Call_AES_new k n, Call_decrypt_and_verify c t]
                @ failure_lines e, None)
           | Inr s \<Rightarrow>
               ([start_line, Call_AES_new k n, Call_decrypt_and_verify c t, success_line],
                Some (ascii ''0x'' @ s))))"
proof -
  have lh: "length h = 3" using h by (auto simp: length_bytes_of)
  note sl = layout_slices [OF lh n t, of c]
  have hh: "take 3 (h @ n @ c @ t) = bytes_of ''v10'' \<or> take 3 (h @ n @ c @ t) = bytes_of ''v11''"
    using h sl(1) by simp
  have nn: "take 12 (drop 3 (h @ n @ c @ t)) \<noteq> []"
    using n sl(2) by auto
  show ?thesis
    unfolding decrypt_db_key_of_try decrypt_try_run [OF hh nn k] Let_def sl
    by (simp split: sum.splits)
qed

text \<open>
  What was encrypted under a key of 16, 24 or 32 bytes and a 12-byte nonce is recovered,
  for any ASCII plaintext.
\<close>

lemma roundtrip_ascii:
  assumes h: "h = bytes_of ''v10'' \<or> h = bytes_of ''v11''"
    and n: "length n = 12" and k: "length k \<in> {16, 24, 32}"
    and p: "\<forall>c \<in> set p. (of_char c :: nat) < 128" and lp: "int (length p) \<le> 2 ^ 36"
    and e: "encrypt_and_digest k n (bytes_of p) = (c, t)"
  shows "decrypt_db_key k (h @ n @ c @ t) =
           ([start_line, Call_AES_new k n, Call_decrypt_and_verify c t, success_line],
            Some (ascii ''0x'' @ ascii p))"
proof -
  from e have c: "c = ctr_crypt k (j0 k n) (bytes_of p)" and t: "t = gcm_tag k n c"
    by (auto simp: encrypt_and_digest_def Let_def)
  have lt: "length t = 16" by (simp add: t length_gcm_tag)
  have lc: "length c = length p" by (simp add: c length_ctr_crypt length_bytes_of)
  have pl: "ctr_crypt k (j0 k n) c = bytes_of p" by (simp add: c ctr_crypt_involution)
  show ?thesis
    unfolding decrypt_db_key_layout [OF h n lt k]
    using lp t by (simp add: lc pl decode_utf8_ascii [OF p])
qed

text \<open>The two refusals of \<open>AES.new\<close>, as whole runs.\<close>

lemma decrypt_db_key_empty_nonce:
  assumes "take 3 w = bytes_of ''v10'' \<or> take 3 w = bytes_of ''v11''"
    and "take 12 (drop 3 w) = []"
  shows "decrypt_db_key k w =
           (start_line # Call_AES_new k [] # failure_lines (ValueError [Lit ''Nonce cannot be empty'']),
            None)"
  using assms
  by (auto simp add: decrypt_db_key_of_try decrypt_db_key_try_def Let_def AES_new_def
      and_then_def emit_def raise_def)

lemma decrypt_db_key_refused_key:
  assumes "take 3 w = bytes_of ''v10'' \<or> take 3 w = bytes_of ''v11''"
    and "take 12 (drop 3 w) \<noteq> []" and "length k \<notin> {16, 24, 32}"
  shows "decrypt_db_key k w =
           (start_line # Call_AES_new k (take 12 (drop 3 w))
            # failure_lines (ValueError [Lit ''Incorrect AES key length ('', Num (length k),
                                         Lit '' bytes)'']),
            None)"
  using assms
  by (auto simp add: decrypt_db_key_of_try decrypt_db_key_try_def Let_def AES_new_def
      and_then_def emit_def raise_def)

text \<open>
  The run on a value wrapped by \<open>encrypt_and_digest\<close>, whatever the plaintext: the tag
  verifies, and the outcome is that of decoding the plaintext.
\<close>

lemma wrapped_unwraps:
  assumes h: "h = bytes_of ''v10'' \<or> h = bytes_of ''v11''"
    and n: "length n = 12" and k: "length k \<in> {16, 24, 32}"
    and lp: "int (length p) \<le> 2 ^ 36"
    and e: "encrypt_and_digest k n p = (c, t)"
  shows "decrypt_db_key k (h @ n @ c @ t) =
           (case decode_utf8 p of
              Inl err \<Rightarrow>
                (start_line # [Call_AES_new k n, Call_decrypt_and_verify c t]
                 @ failure_lines err, None)
            | Inr s \<Rightarrow>
                ([start_line, Call_AES_new k n, Call_decrypt_and_verify c t, success_line],
                 Some (ascii ''0x'' @ s)))"
proof -
  from e have c: "c = ctr_crypt k (j0 k n) p" and t: "t = gcm_tag k n c"
    by (auto simp: encrypt_and_digest_def Let_def)
  have lt: "length t = 16" by (simp add: t length_gcm_tag)
  have lc: "length c = length p" by (simp add: c length_ctr_crypt)
  have pl: "ctr_crypt k (j0 k n) c = p" by (simp add: c ctr_crypt_involution)
  show ?thesis
    unfolding decrypt_db_key_layout [OF h n lt k]
    using lp t by (simp add: lc pl)
qed

section \<open>The scenario\<close>

lemma scenario_lengths:
  "length scenario_key = 32" "length scenario_nonce = 12"
  "length scenario_tag = 16" "length scenario_plaintext = 64"
  by (simp_all add: scenario_key_def scenario_nonce_def scenario_tag_def scenario_plaintext_def
      encrypt_and_digest_parts length_gcm_tag)

lemma scenario_tag_eq:
  "gcm_tag scenario_key scenario_nonce scenario_ciphertext = scenario_tag"
  by (simp add: scenario_tag_def scenario_ciphertext_def encrypt_and_digest_parts)

section \<open>Authentication failure (C1)\<close>

text \<open>
  C1. For every 32-byte master key and every wrapped value of valid layout (a recognised
  3-byte header, a 12-byte nonce, a ciphertext and a 16-byte tag): when the tag that
  AES-GCM computes over the ciphertext differs from the tag received, \<open>decrypt_db_key\<close>
  calls the cipher once, the cipher raises its authentication failure
  (\<open>ValueError("MAC check failed")\<close>), the two error lines are printed and \<open>None\<close> is
  returned: no plaintext reaches the caller or the output. (A ciphertext beyond the
  counter-mode limit of \<open>2^36\<close> bytes is refused by the cipher before the tag is compared,
  with the same return value.)
\<close>

theorem mac_failure_returns_None:
  assumes "length master_key = 32"
    and "header = bytes_of ''v10'' \<or> header = bytes_of ''v11''"
    and "length nonce = 12" and "length tag = 16"
    and "gcm_tag master_key nonce ciphertext \<noteq> tag"
  shows "decrypt_db_key master_key (header @ nonce @ ciphertext @ tag) =
           ([start_line, Call_AES_new master_key nonce, Call_decrypt_and_verify ciphertext tag]
            @ failure_lines (if 2 ^ 36 < int (length ciphertext) then OverflowError
                             else ValueError [Lit ''MAC check failed'']),
            None)"
proof -
  have k: "length master_key \<in> {16, 24, 32}" using assms(1) by simp
  show ?thesis
    unfolding decrypt_db_key_layout [OF assms(2,3,4) k]
    using assms(5) by simp
qed

theorem mac_failure_returns_None_witness:
  "decrypt_db_key scenario_key
     (bytes_of ''v10'' @ scenario_nonce @ scenario_ciphertext @ flip_bit_at 0 scenario_tag) =
     ([start_line, Call_AES_new scenario_key scenario_nonce,
       Call_decrypt_and_verify scenario_ciphertext (flip_bit_at 0 scenario_tag)]
      @ failure_lines (ValueError [Lit ''MAC check failed'']),
      None)"
proof -
  have f: "flip_bit_at 0 scenario_tag \<noteq> scenario_tag"
    and l: "length (flip_bit_at 0 scenario_tag) = 16"
    using flip_bit_at_changes [of 0 scenario_tag] by (simp_all add: scenario_lengths)
  have neq: "gcm_tag scenario_key scenario_nonce scenario_ciphertext \<noteq> flip_bit_at 0 scenario_tag"
    using f by (simp add: scenario_tag_eq)
  have lc: "length scenario_ciphertext = 64"
    by (simp add: scenario_ciphertext_def encrypt_and_digest_parts length_ctr_crypt
        length_bytes_of scenario_lengths)
  show ?thesis
    using mac_failure_returns_None [OF scenario_lengths(1) disjI1 [OF refl] scenario_lengths(2) l neq]
    by (simp add: lc)
qed

text \<open>
  A tag that verified never verifies with one of its bits flipped: for a key of 16, 24 or
  32 bytes and a 12-byte nonce, the wrapped value made from \<open>encrypt_and_digest\<close> with any
  single bit of its 16-byte tag flipped is refused.
\<close>

theorem tag_bit_flip_rejected:
  assumes "length K \<in> {16, 24, 32}" and "length N = 12"
    and "header = bytes_of ''v10'' \<or> header = bytes_of ''v11''"
    and "encrypt_and_digest K N plaintext = (ciphertext, tag)"
    and "i < 128"
  shows "snd (decrypt_db_key K (header @ N @ ciphertext @ flip_bit_at i tag)) = None"
proof -
  from assms(4) have t: "tag = gcm_tag K N ciphertext"
    by (auto simp add: encrypt_and_digest_def Let_def)
  then have lt: "length tag = 16" by (simp add: length_gcm_tag)
  with assms(5) have i: "i < 8 * length tag" by simp
  have l: "length (flip_bit_at i tag) = 16"
    using flip_bit_at_changes(2) [OF i] lt by simp
  have neq: "gcm_tag K N ciphertext \<noteq> flip_bit_at i tag"
    using flip_bit_at_changes(1) [OF i] t by simp
  show ?thesis
    unfolding decrypt_db_key_layout [OF assms(3,2) l assms(1)]
    using neq by simp
qed

theorem tag_bit_flip_rejected_witness:
  "snd (decrypt_db_key scenario_key
          (bytes_of ''v10'' @ scenario_nonce @ scenario_ciphertext @ flip_bit_at 77 scenario_tag))
   = None"
proof -
  have k: "length scenario_key \<in> {16, 24, 32}" by (simp add: scenario_lengths)
  have e: "encrypt_and_digest scenario_key scenario_nonce (bytes_of scenario_plaintext)
           = (scenario_ciphertext, scenario_tag)"
    by (simp add: scenario_ciphertext_def scenario_tag_def)
  have i: "(77 :: nat) < 128" by simp
  show ?thesis
    by (rule tag_bit_flip_rejected [OF k scenario_lengths(2) disjI1 [OF refl] e i])
qed

section \<open>Round trip (C2)\<close>

text \<open>
  C2. For every 32-byte key \<open>K\<close>, every 12-byte nonce \<open>N\<close> and every string \<open>P\<close> of 64
  hexadecimal characters: when \<open>P\<close> (as UTF-8 bytes) is encrypted with AES-256-GCM under
  \<open>(K, N)\<close> with no associated data, \<open>decrypt_db_key\<close> on \<open>"v10" + N + ciphertext + tag\<close>
  returns exactly \<open>"0x" + P\<close>.
\<close>

theorem roundtrip:
  assumes "length K = 32" and "length N = 12" and "length P = 64"
    and "\<forall>c \<in> set P. c \<in> set ''0123456789abcdefABCDEF''"
    and "encrypt_and_digest K N (bytes_of P) = (ciphertext, tag)"
  shows "snd (decrypt_db_key K (bytes_of ''v10'' @ N @ ciphertext @ tag)) = Some (ascii (''0x'' @ P))"
proof -
  have k: "length K \<in> {16, 24, 32}" using assms(1) by simp
  have a: "\<forall>c \<in> set P. (of_char c :: nat) < 128"
    using assms(4) hex_chars_ascii by blast
  have lp: "int (length P) \<le> 2 ^ 36" using assms(3) by simp
  show ?thesis
    unfolding roundtrip_ascii [OF disjI1 [OF refl] assms(2) k a lp assms(5)]
    by (simp add: ascii_def)
qed

theorem roundtrip_witness:
  "snd (decrypt_db_key scenario_key
          (bytes_of ''v10'' @ scenario_nonce @ scenario_ciphertext @ scenario_tag))
   = Some (ascii (''0x'' @ replicate 64 CHR ''a''))"
proof -
  have h: "\<forall>c \<in> set scenario_plaintext. c \<in> set ''0123456789abcdefABCDEF''"
    by (simp add: scenario_plaintext_def)
  have e: "encrypt_and_digest scenario_key scenario_nonce (bytes_of scenario_plaintext)
           = (scenario_ciphertext, scenario_tag)"
    by (simp add: scenario_ciphertext_def scenario_tag_def)
  show ?thesis
    using roundtrip [OF scenario_lengths(1,2,4) h e]
    by (simp add: scenario_plaintext_def)
qed

section \<open>Truncated wrapped values (C3)\<close>

text \<open>
  C3, as stated, fails: \<open>decrypt_db_key\<close> has no length check. On the 20-byte value
  \<open>"v10"\<close>, twelve zero bytes, \<open>01 02 03 04 05\<close> and a 32-byte key it constructs the
  cipher and calls \<open>decrypt_and_verify\<close> (on an empty ciphertext and a 5-byte tag) before
  it fails.
\<close>

theorem truncated_wrapped_counterexample:
  "length (bytes_of ''v10'' @ replicate 12 0 @ [1, 2, 3, 4, 5]) = 20 \<and>
   decrypt_db_key (replicate 32 0) (bytes_of ''v10'' @ replicate 12 0 @ [1, 2, 3, 4, 5]) =
     ([start_line,
       Call_AES_new (replicate 32 0) (replicate 12 0),
       Call_decrypt_and_verify [] [1, 2, 3, 4, 5]]
      @ failure_lines (ValueError [Lit ''MAC check failed'']),
      None)"
proof -
  let ?w = "bytes_of ''v10'' @ replicate 12 0 @ [1, 2, 3, 4, 5 :: byte]"
  let ?k = "replicate 32 0 :: bytes"
  have hd: "take 3 ?w = bytes_of ''v10'' \<or> take 3 ?w = bytes_of ''v11''"
    by (simp add: bytes_of_def)
  have nn: "take 12 (drop 3 ?w) = replicate 12 0" by (simp add: bytes_of_def)
  have n: "take 12 (drop 3 ?w) \<noteq> []" unfolding nn by simp
  have k: "length ?k \<in> {16, 24, 32}" by simp
  have body: "drop 15 ?w = [1, 2, 3, 4, 5]" by (simp add: bytes_of_def)
  have neq: "gcm_tag ?k (replicate 12 0) [] \<noteq> [1, 2, 3, 4, 5]"
    using length_gcm_tag [of ?k "replicate 12 0" "[]"] by auto
  have "decrypt_db_key ?k ?w = ([start_line,
       Call_AES_new ?k (replicate 12 0),
       Call_decrypt_and_verify [] [1, 2, 3, 4, 5]]
      @ failure_lines (ValueError [Lit ''MAC check failed'']),
      None)"
    unfolding decrypt_db_key_of_try decrypt_try_run [OF hd n k] Let_def nn body
    using neq by simp
  then show ?thesis by (simp add: bytes_of_def)
qed

text \<open>
  C3, amended. The whole run of \<open>decrypt_db_key\<close> on a wrapped value shorter than 31 bytes,
  for every master key: it is one of four, and returns \<open>None\<close> in each. When the first
  three bytes are not \<open>"v10"\<close> or \<open>"v11"\<close> the header error is reported and the cipher is
  not called. When the value is a recognised header and nothing more, \<open>AES.new\<close> is called
  with an empty nonce and refuses it. Otherwise \<open>AES.new\<close> is called with the bytes from
  the fourth to the fifteenth that the value has: it refuses a key that is not of 16, 24
  or 32 bytes; for any other key \<open>decrypt_and_verify\<close> is called, on an empty ciphertext
  and with the bytes after the fifteenth (fewer than 16, possibly none) as the tag, and
  fails the MAC check.
\<close>

theorem truncated_wrapped_run:
  assumes "length w < 31"
  shows "decrypt_db_key k w =
     (if take 3 w \<noteq> bytes_of ''v10'' \<and> take 3 w \<noteq> bytes_of ''v11''
      then (start_line # failure_lines (header_error (take 3 w)), None)
      else if length w = 3
      then (start_line # Call_AES_new k []
            # failure_lines (ValueError [Lit ''Nonce cannot be empty'']), None)
      else if length k \<notin> {16, 24, 32}
      then (start_line # Call_AES_new k (take 12 (drop 3 w))
            # failure_lines (ValueError [Lit ''Incorrect AES key length ('', Num (length k),
                                         Lit '' bytes)'']), None)
      else ([start_line, Call_AES_new k (take 12 (drop 3 w)),
             Call_decrypt_and_verify [] (drop 15 w)]
            @ failure_lines (ValueError [Lit ''MAC check failed'']), None))"
proof (cases "take 3 w = bytes_of ''v10'' \<or> take 3 w = bytes_of ''v11''")
  case False
  then show ?thesis by (simp add: decrypt_db_key_bad_header)
next
  case hd: True
  then have "length (take 3 w) = length (bytes_of ''v10'')
             \<or> length (take 3 w) = length (bytes_of ''v11'')" by metis
  then have l3: "3 \<le> length w" by (simp add: length_bytes_of)
  show ?thesis
  proof (cases "length w = 3")
    case True
    then have "take 12 (drop 3 w) = []" by simp
    from decrypt_db_key_empty_nonce [OF hd this] show ?thesis using hd True by simp
  next
    case False
    with l3 have n: "take 12 (drop 3 w) \<noteq> []" by simp
    show ?thesis
    proof (cases "length k \<in> {16, 24, 32}")
      case False
      from decrypt_db_key_refused_key [OF hd n False] show ?thesis
        using hd \<open>length w \<noteq> 3\<close> False by simp
    next
      case k: True
      have b: "length (drop 15 w) < 16" using assms by simp
      then have ct: "take (length (drop 15 w) - 16) (drop 15 w) = []"
        and tg: "drop (length (drop 15 w) - 16) (drop 15 w) = drop 15 w" by simp_all
      have neq: "gcm_tag k (take 12 (drop 3 w)) [] \<noteq> drop 15 w"
        using length_gcm_tag [of k "take 12 (drop 3 w)" "[]"] b by auto
      show ?thesis
        unfolding decrypt_db_key_of_try decrypt_try_run [OF hd n k] Let_def ct tg
        using hd \<open>length w \<noteq> 3\<close> k neq by simp
    qed
  qed
qed

theorem truncated_wrapped_run_witness:
  "length (bytes_of ''v11'' @ [7, 7]) < 31 \<and>
   decrypt_db_key (replicate 32 0) (bytes_of ''v11'' @ [7, 7]) =
     ([start_line, Call_AES_new (replicate 32 0) [7, 7], Call_decrypt_and_verify [] []]
      @ failure_lines (ValueError [Lit ''MAC check failed'']), None)"
proof -
  have l: "length (bytes_of ''v11'' @ [7, 7 :: byte]) < 31" by (simp add: bytes_of_def)
  show ?thesis
    using truncated_wrapped_run [OF l, of "replicate 32 0"] l
    by (simp add: bytes_of_def)
qed

section \<open>Header rejection (C4)\<close>

text \<open>
  C4. For every wrapped value whose first three bytes are neither \<open>v10\<close> nor \<open>v11\<close>,
  \<open>decrypt_db_key\<close> fails on the header check (\<open>ValueError("Unexpected header format
  ...")\<close>): the whole run is the start line and the two error lines, with no call to the
  cipher, and \<open>None\<close> is returned. The two recognised headers are treated identically:
  on the same remaining bytes the runs and the results are equal.
\<close>

theorem header_rejection:
  "(take 3 w \<noteq> bytes_of ''v10'' \<and> take 3 w \<noteq> bytes_of ''v11'' \<longrightarrow>
      decrypt_db_key k w = (start_line # failure_lines (header_error (take 3 w)), None))
   \<and> decrypt_db_key k (bytes_of ''v10'' @ rest) = decrypt_db_key k (bytes_of ''v11'' @ rest)"
proof
  show "take 3 w \<noteq> bytes_of ''v10'' \<and> take 3 w \<noteq> bytes_of ''v11'' \<longrightarrow>
      decrypt_db_key k w = (start_line # failure_lines (header_error (take 3 w)), None)"
    by (simp add: decrypt_db_key_bad_header)
  show "decrypt_db_key k (bytes_of ''v10'' @ rest) = decrypt_db_key k (bytes_of ''v11'' @ rest)"
    by (simp add: decrypt_db_key_def decrypt_db_key_try_def bytes_of_def)
qed

theorem header_rejection_witness:
  "decrypt_db_key (replicate 32 0) (bytes_of ''v09'' @ replicate 28 0)
     = (start_line # failure_lines (header_error (bytes_of ''v09'')), None)
   \<and> decrypt_db_key (replicate 32 0) (bytes_of ''v10'' @ replicate 28 0)
     = decrypt_db_key (replicate 32 0) (bytes_of ''v11'' @ replicate 28 0)"
  using header_rejection [of "bytes_of ''v09'' @ replicate 28 0" "replicate 32 0" "replicate 28 0"]
  by (simp add: bytes_of_def)

section \<open>Key length (C5)\<close>

text \<open>
  C5, as stated, fails: the only key-length check is the cipher constructor's, and
  \<open>AES.new\<close> accepts keys of 16 and 24 bytes. A value wrapped with AES-128-GCM under a
  16-byte key is unwrapped with that key.
\<close>

theorem sixteen_byte_key_counterexample:
  "length (replicate 16 0 :: bytes) \<noteq> 32 \<and>
   snd (decrypt_db_key (replicate 16 0)
          (bytes_of ''v10'' @ replicate 12 0
           @ fst (encrypt_and_digest (replicate 16 0) (replicate 12 0)
                    (bytes_of (replicate 64 CHR ''a'')))
           @ snd (encrypt_and_digest (replicate 16 0) (replicate 12 0)
                    (bytes_of (replicate 64 CHR ''a'')))))
   = Some (ascii (''0x'' @ replicate 64 CHR ''a''))"
proof -
  have a: "\<forall>c \<in> set (replicate 64 CHR ''a''). (of_char c :: nat) < 128" by simp
  have "decrypt_db_key (replicate 16 0)
          (bytes_of ''v10'' @ replicate 12 0
           @ fst (encrypt_and_digest (replicate 16 0) (replicate 12 0)
                    (bytes_of (replicate 64 CHR ''a'')))
           @ snd (encrypt_and_digest (replicate 16 0) (replicate 12 0)
                    (bytes_of (replicate 64 CHR ''a''))))
        = ([start_line, Call_AES_new (replicate 16 0) (replicate 12 0),
            Call_decrypt_and_verify
              (fst (encrypt_and_digest (replicate 16 0) (replicate 12 0)
                    (bytes_of (replicate 64 CHR ''a''))))
              (snd (encrypt_and_digest (replicate 16 0) (replicate 12 0)
                    (bytes_of (replicate 64 CHR ''a'')))),
            success_line],
           Some (ascii ''0x'' @ ascii (replicate 64 CHR ''a'')))"
    by (rule roundtrip_ascii [OF disjI1 [OF refl] _ _ a]) simp_all
  then show ?thesis by (simp add: ascii_def)
qed

text \<open>
  C5, amended. For every master key whose length is not 16, 24 or 32 bytes,
  \<open>decrypt_db_key\<close> returns \<open>None\<close> whatever the wrapped value is, and
  \<open>decrypt_and_verify\<close> is never called.
\<close>

theorem bad_key_length_rejected:
  assumes "length master_key \<notin> {16, 24, 32}"
  shows "snd (decrypt_db_key master_key w) = None \<and>
         (\<forall>c t. Call_decrypt_and_verify c t \<notin> set (fst (decrypt_db_key master_key w)))"
proof (cases "take 3 w = bytes_of ''v10'' \<or> take 3 w = bytes_of ''v11''")
  case False
  then show ?thesis by (simp add: decrypt_db_key_bad_header)
next
  case True
  from decrypt_db_key_AES_new_refuses [OF True disjI2 [OF assms]]
  show ?thesis by auto
qed

theorem bad_key_length_rejected_witness:
  "snd (decrypt_db_key (replicate 31 0)
          (bytes_of ''v10'' @ scenario_nonce @ scenario_ciphertext @ scenario_tag)) = None \<and>
   (\<forall>c t. Call_decrypt_and_verify c t \<notin> set (fst (decrypt_db_key (replicate 31 0)
          (bytes_of ''v10'' @ scenario_nonce @ scenario_ciphertext @ scenario_tag))))"
  using bad_key_length_rejected [of "replicate 31 0"
      "bytes_of ''v10'' @ scenario_nonce @ scenario_ciphertext @ scenario_tag"]
  by simp

section \<open>The returned value and the printed output (C7)\<close>

lemma decode_bad:
  "decode_utf8 (bytes_of ''deadbeef'' @ [0xFF])
   = Inl (UnicodeDecodeError (bytes_of ''deadbeef'' @ [0xFF]) 8 9 ''invalid start byte'')"
  by (simp add: decode_utf8_def bytes_of_def cons_ok_def)

text \<open>
  C7, as stated, fails: the plaintext is neither measured nor checked for hexadecimal
  characters. A wrapped value that encrypts \<open>hello\<close> under the master key is unwrapped to
  \<open>0xhello\<close>. Nor is a failure silent about the plaintext: a wrapped value that encrypts
  the nine bytes \<open>deadbeef\<close>, \<open>FF\<close> verifies, fails to decode, and the run ends with
  \<open>None\<close> after the \<open>Details:\<close> line of the \<open>UnicodeDecodeError\<close> raised over that plaintext,
  which Python prints as
  \<open>'utf-8' codec can't decode byte 0xff in position 8: invalid start byte\<close>.
\<close>

theorem unchecked_plaintext_counterexample:
  "snd (decrypt_db_key scenario_key
          (bytes_of ''v10'' @ scenario_nonce
           @ fst (encrypt_and_digest scenario_key scenario_nonce (bytes_of ''hello''))
           @ snd (encrypt_and_digest scenario_key scenario_nonce (bytes_of ''hello''))))
     = Some (ascii ''0xhello'')
   \<and> decrypt_db_key scenario_key
         (bytes_of ''v10'' @ scenario_nonce
          @ fst (encrypt_and_digest scenario_key scenario_nonce (bytes_of ''deadbeef'' @ [0xFF]))
          @ snd (encrypt_and_digest scenario_key scenario_nonce (bytes_of ''deadbeef'' @ [0xFF])))
     = ([start_line, Call_AES_new scenario_key scenario_nonce,
         Call_decrypt_and_verify
           (fst (encrypt_and_digest scenario_key scenario_nonce (bytes_of ''deadbeef'' @ [0xFF])))
           (snd (encrypt_and_digest scenario_key scenario_nonce (bytes_of ''deadbeef'' @ [0xFF])))]
        @ failure_lines
            (UnicodeDecodeError (bytes_of ''deadbeef'' @ [0xFF]) 8 9 ''invalid start byte''),
        None)
   \<and> str_UnicodeDecodeError (bytes_of ''deadbeef'' @ [0xFF]) 8 9 ''invalid start byte''
     = [Lit ([CHR 0x27] @ ''utf-8'' @ [CHR 0x27] @ '' codec can'' @ [CHR 0x27]
             @ ''t decode byte 0x''),
        Lit ''ff'', Lit '' in position '', Num 8, Lit '': '', Lit ''invalid start byte'']"
proof (intro conjI)
  have k: "length scenario_key \<in> {16, 24, 32}" by (simp add: scenario_lengths)
  have a: "\<forall>c \<in> set ''hello''. (of_char c :: nat) < 128" by simp
  have "decrypt_db_key scenario_key
          (bytes_of ''v10'' @ scenario_nonce
           @ fst (encrypt_and_digest scenario_key scenario_nonce (bytes_of ''hello''))
           @ snd (encrypt_and_digest scenario_key scenario_nonce (bytes_of ''hello'')))
        = ([start_line, Call_AES_new scenario_key scenario_nonce,
            Call_decrypt_and_verify
              (fst (encrypt_and_digest scenario_key scenario_nonce (bytes_of ''hello'')))
              (snd (encrypt_and_digest scenario_key scenario_nonce (bytes_of ''hello''))),
            success_line],
           Some (ascii ''0x'' @ ascii ''hello''))"
    by (rule roundtrip_ascii [OF disjI1 [OF refl] scenario_lengths(2) k a]) simp_all
  then show "snd (decrypt_db_key scenario_key
          (bytes_of ''v10'' @ scenario_nonce
           @ fst (encrypt_and_digest scenario_key scenario_nonce (bytes_of ''hello''))
           @ snd (encrypt_and_digest scenario_key scenario_nonce (bytes_of ''hello''))))
     = Some (ascii ''0xhello'')"
    by (simp add: ascii_def)
  have lp: "int (length (bytes_of ''deadbeef'' @ [0xFF :: byte])) \<le> 2 ^ 36"
    by (simp add: bytes_of_def)
  have e: "encrypt_and_digest scenario_key scenario_nonce (bytes_of ''deadbeef'' @ [0xFF])
           = (fst (encrypt_and_digest scenario_key scenario_nonce (bytes_of ''deadbeef'' @ [0xFF])),
              snd (encrypt_and_digest scenario_key scenario_nonce (bytes_of ''deadbeef'' @ [0xFF])))"
    by simp
  show "decrypt_db_key scenario_key
         (bytes_of ''v10'' @ scenario_nonce
          @ fst (encrypt_and_digest scenario_key scenario_nonce (bytes_of ''deadbeef'' @ [0xFF]))
          @ snd (encrypt_and_digest scenario_key scenario_nonce (bytes_of ''deadbeef'' @ [0xFF])))
     = ([start_line, Call_AES_new scenario_key scenario_nonce,
         Call_decrypt_and_verify
           (fst (encrypt_and_digest scenario_key scenario_nonce (bytes_of ''deadbeef'' @ [0xFF])))
           (snd (encrypt_and_digest scenario_key scenario_nonce (bytes_of ''deadbeef'' @ [0xFF])))]
        @ failure_lines
            (UnicodeDecodeError (bytes_of ''deadbeef'' @ [0xFF]) 8 9 ''invalid start byte''),
        None)"
    unfolding wrapped_unwraps [OF disjI1 [OF refl] scenario_lengths(2) k lp e] decode_bad
    by simp
  show "str_UnicodeDecodeError (bytes_of ''deadbeef'' @ [0xFF]) 8 9 ''invalid start byte''
     = [Lit ([CHR 0x27] @ ''utf-8'' @ [CHR 0x27] @ '' codec can'' @ [CHR 0x27]
             @ ''t decode byte 0x''),
        Lit ''ff'', Lit '' in position '', Num 8, Lit '': '', Lit ''invalid start byte'']"
    by (simp add: str_UnicodeDecodeError_def hex2_def bytes_of_def)
qed


text \<open>
  C7, amended. The whole run of \<open>decrypt_db_key\<close>, for every master key and wrapped value.
  A value is returned exactly when the header is \<open>"v10"\<close> or \<open>"v11"\<close>, the nonce is not
  empty, the key is of 16, 24 or 32 bytes, the ciphertext is within the cipher's limit,
  the tag verifies and the whole plaintext is valid UTF-8: the value is \<open>"0x"\<close> followed by
  the decoded plaintext, whatever its length and characters, and the lines printed are
  the start line and the success line. In every other case \<open>None\<close> is returned, and the
  lines printed are the start line, the fixed error line and a \<open>Details:\<close> line that shows
  the exception: the header error with the header's bytes, the refusal by \<open>AES.new\<close> of an
  empty nonce or of the key length, the overflow of the cipher's limit, the MAC failure,
  or, when the tag verified and the plaintext is not valid UTF-8, the
  \<open>UnicodeDecodeError\<close> raised over the decrypted plaintext, with the range and the reason
  the decoder gives.
\<close>

theorem decrypt_db_key_outcome:
  "decrypt_db_key k w =
     (let nonce = take 12 (drop 3 w);
          body = drop 15 w;
          tag = drop (length body - 16) body;
          ciphertext = take (length body - 16) body
      in if take 3 w \<noteq> bytes_of ''v10'' \<and> take 3 w \<noteq> bytes_of ''v11''
         then (start_line # failure_lines (header_error (take 3 w)), None)
         else if nonce = []
         then (start_line # Call_AES_new k []
               # failure_lines (ValueError [Lit ''Nonce cannot be empty'']), None)
         else if length k \<notin> {16, 24, 32}
         then (start_line # Call_AES_new k nonce
               # failure_lines (ValueError [Lit ''Incorrect AES key length ('', Num (length k),
                                            Lit '' bytes)'']), None)
         else if 2 ^ 36 < int (length ciphertext)
         then ([start_line, Call_AES_new k nonce, Call_decrypt_and_verify ciphertext tag]
               @ failure_lines OverflowError, None)
         else if gcm_tag k nonce ciphertext \<noteq> tag
         then ([start_line, Call_AES_new k nonce, Call_decrypt_and_verify ciphertext tag]
               @ failure_lines (ValueError [Lit ''MAC check failed'']), None)
         else
           (case utf8_decode 0 (ctr_crypt k (j0 k nonce) ciphertext) of
              Inl (start, end, reason) \<Rightarrow>
                ([start_line, Call_AES_new k nonce, Call_decrypt_and_verify ciphertext tag]
                 @ failure_lines
                     (UnicodeDecodeError (ctr_crypt k (j0 k nonce) ciphertext) start end reason),
                 None)
            | Inr s \<Rightarrow>
                ([start_line, Call_AES_new k nonce, Call_decrypt_and_verify ciphertext tag,
                  success_line],
                 Some (ascii ''0x'' @ s))))"
proof (cases "take 3 w = bytes_of ''v10'' \<or> take 3 w = bytes_of ''v11''")
  case False
  then show ?thesis by (simp add: decrypt_db_key_bad_header Let_def)
next
  case hd: True
  show ?thesis
  proof (cases "take 12 (drop 3 w) = []")
    case True
    from decrypt_db_key_empty_nonce [OF hd True] show ?thesis using hd True by (simp add: Let_def)
  next
    case n: False
    show ?thesis
    proof (cases "length k \<in> {16, 24, 32}")
      case False
      from decrypt_db_key_refused_key [OF hd n False] show ?thesis
        using hd n False by (simp add: Let_def)
    next
      case k: True
      show ?thesis
        unfolding decrypt_db_key_of_try decrypt_try_run [OF hd n k] Let_def
        using hd n k by (simp add: decode_utf8_def split: sum.splits prod.splits)
    qed
  qed
qed


section \<open>The events of a sequence of steps\<close>

lemma fst_and_then:
  "fst (and_then m f) = fst m @ (case snd m of Inl e \<Rightarrow> [] | Inr x \<Rightarrow> fst (f x))"
  by (cases m) (simp add: and_then_def split: sum.splits prod.splits)

lemma snd_and_then:
  "snd (and_then m f) = (case snd m of Inl e \<Rightarrow> Inl e | Inr x \<Rightarrow> snd (f x))"
  by (cases m) (simp add: and_then_def split: sum.splits prod.splits)

lemma all_and_then:
  assumes "list_all P (fst m)" and "\<And>x. list_all P (fst (f x))"
  shows "list_all P (fst (and_then m f))"
  using assms by (simp add: fst_and_then split: sum.splits)

lemma all_atoms:
  "list_all P (fst (lift r))"
  "list_all P (fst (ret x))"
  "list_all P (fst (raise e))"
  "P ev \<Longrightarrow> list_all P (fst (emit ev))"
  "P (Print ps) \<Longrightarrow> list_all P (fst (print ps))"
  by (simp_all add: lift_def ret_def raise_def emit_def print_def)

lemma all_platform_calls:
  assumes "P (Call_getenv (ascii ''APPDATA''))" and "\<And>p. P (Call_open p)"
    and "\<And>d e r p f. P (Call_CryptUnprotectData d e r p f)"
  shows "list_all P (fst (get_appdata_path os False))"
    and "list_all P (fst (os_path_join os a ps))"
    and "list_all P (fst (json_load_file os path))"
    and "list_all P (fst (base64_b64decode os v))"
    and "list_all P (fst (win32crypt_CryptUnprotectData os d en r p fl))"
    and "list_all P (fst (bytes_fromhex v))"
       apply (simp add: get_appdata_path_def os_getenv_def all_and_then all_atoms assms)
      apply (simp add: os_path_join_def all_atoms split: option.splits)
     apply (simp add: json_load_file_def all_and_then all_atoms assms)
    apply (simp add: base64_b64decode_def all_atoms split: json.splits)
   apply (simp add: win32crypt_CryptUnprotectData_def all_and_then all_atoms assms)
  apply (simp add: bytes_fromhex_def all_atoms split: json.splits option.splits)
  done

lemma all_get_master_key_try:
  assumes "P (Call_getenv (ascii ''APPDATA''))" and "\<And>p. P (Call_open p)"
    and "\<And>d e r p f. P (Call_CryptUnprotectData d e r p f)"
    and "P (Print [Txt ''   [SUCCESS] Master key decrypted.''])"
  shows "list_all P (fst (get_master_key_try os))"
  unfolding get_master_key_try_def Let_def
  by (intro all_and_then all_platform_calls all_atoms assms)

lemma all_get_wrapped_db_key_try:
  assumes "P (Call_getenv (ascii ''APPDATA''))" and "\<And>p. P (Call_open p)"
    and "\<And>d e r p f. P (Call_CryptUnprotectData d e r p f)"
    and "P (Print [Txt ''   [SUCCESS] Found and decoded wrapped key from config.json.''])"
  shows "list_all P (fst (get_wrapped_db_key_try os))"
  unfolding get_wrapped_db_key_try_def Let_def
  by (intro all_and_then all_platform_calls all_atoms assms)

lemma all_decrypt_db_key_try:
  assumes "\<And>k n. P (Call_AES_new k n)" and "\<And>c t. P (Call_decrypt_and_verify c t)"
    and "P success_line"
  shows "list_all P (fst (decrypt_db_key_try k w))"
  unfolding decrypt_db_key_try_def Let_def AES_new_def decrypt_and_verify_def
  by (simp add: all_and_then all_atoms assms)

lemma get_master_key_of_try:
  "get_master_key os =
     (case get_master_key_try os of
        (t, Inr v) \<Rightarrow> (master_key_stage # t, Some v)
      | (t, Inl e) \<Rightarrow>
          (master_key_stage # t @ [Print [Txt ''   [ERROR] Failed to get master key: '', Exc e]],
           None))"
  by (simp add: get_master_key_def and_then_print split: prod.splits sum.splits)

lemma get_wrapped_db_key_of_try:
  "get_wrapped_db_key os =
     (case get_wrapped_db_key_try os of
        (t, Inr v) \<Rightarrow> (wrapped_key_stage # t, Some v)
      | (t, Inl e) \<Rightarrow>
          (wrapped_key_stage # t
             @ [Print [Txt ''   [ERROR] Failed to get wrapped database key: '', Exc e]],
           None))"
  by (simp add: get_wrapped_db_key_def and_then_print split: prod.splits sum.splits)

lemma stage_marks_simps:
  "stage_marks [] = []"
  "stage_marks (ev # t) = (if is_mark ev then ev # stage_marks t else stage_marks t)"
  "stage_marks (a @ b) = stage_marks a @ stage_marks b"
  by (simp_all add: stage_marks_def)

lemma stage_marks_quiet: "list_all (\<lambda>e. \<not> is_mark e) t \<Longrightarrow> stage_marks t = []"
  by (induction t) (simp_all add: stage_marks_def)

lemma stage_marks_get_master_key:
  "stage_marks (fst (get_master_key os)) = [master_key_stage]"
proof (cases "get_master_key_try os")
  case (Pair t r)
  have "list_all (\<lambda>e. \<not> is_mark e) (fst (get_master_key_try os))"
    by (rule all_get_master_key_try) simp_all
  with Pair have "stage_marks t = []" by (simp add: stage_marks_quiet)
  with Pair show ?thesis by (cases r) (simp_all add: get_master_key_of_try stage_marks_simps)
qed

lemma stage_marks_get_wrapped_db_key:
  "stage_marks (fst (get_wrapped_db_key os)) = [wrapped_key_stage]"
proof (cases "get_wrapped_db_key_try os")
  case (Pair t r)
  have "list_all (\<lambda>e. \<not> is_mark e) (fst (get_wrapped_db_key_try os))"
    by (rule all_get_wrapped_db_key_try) simp_all
  with Pair have "stage_marks t = []" by (simp add: stage_marks_quiet)
  with Pair show ?thesis
    by (cases r) (simp_all add: get_wrapped_db_key_of_try stage_marks_simps)
qed

lemma stage_marks_decrypt_db_key:
  "stage_marks (fst (decrypt_db_key k w)) = [start_line]"
proof (cases "decrypt_db_key_try k w")
  case (Pair t r)
  have "list_all (\<lambda>e. \<not> is_mark e) (fst (decrypt_db_key_try k w))"
    by (rule all_decrypt_db_key_try) simp_all
  with Pair have "stage_marks t = []" by (simp add: stage_marks_quiet)
  with Pair show ?thesis by (cases r) (simp_all add: decrypt_db_key_of_try stage_marks_simps)
qed

lemma decrypt_db_key_try_value:
  "snd (decrypt_db_key_try k w) = Inr v \<Longrightarrow> \<exists>s. v = ascii ''0x'' @ s"
  unfolding decrypt_db_key_try_def Let_def
  by (auto simp add: snd_and_then raise_def ret_def split: if_splits sum.splits)

lemma decrypt_db_key_value_nonempty:
  assumes "decrypt_db_key k w = (t, Some v)"
  shows "v \<noteq> []"
proof -
  from assms have "snd (decrypt_db_key_try k w) = Inr v"
    by (auto simp add: decrypt_db_key_of_try split: prod.splits sum.splits)
  from decrypt_db_key_try_value [OF this] show ?thesis by (auto simp add: ascii_def)
qed

section \<open>The master-key blob (C6)\<close>

lemma get_master_key_try_run:
  assumes "getenv os (ascii ''APPDATA'') = Some appdata"
    and "open_read os (path_join os appdata [ascii ''Signal'', ascii ''Local State'']) = Inr text"
    and "json_loads os text = Inr local_state"
    and "getitem local_state (ascii ''os_crypt'') = Inr os_crypt"
    and "getitem os_crypt (ascii ''encrypted_key'') = Inr (JString b64)"
    and "b64decode os b64 = Inr blob"
  shows "get_master_key_try os =
     (case CryptUnprotectData os (drop 5 blob) None None None 0 of
        Inl e \<Rightarrow>
          ([Call_getenv (ascii ''APPDATA''),
            Call_open (path_join os appdata [ascii ''Signal'', ascii ''Local State'']),
            Call_CryptUnprotectData (drop 5 blob) None None None 0],
           Inl e)
      | Inr unprotected \<Rightarrow>
          ([Call_getenv (ascii ''APPDATA''),
            Call_open (path_join os appdata [ascii ''Signal'', ascii ''Local State'']),
            Call_CryptUnprotectData (drop 5 blob) None None None 0,
            Print [Txt ''   [SUCCESS] Master key decrypted.'']],
           Inr (snd unprotected)))"
  by (simp add: get_master_key_try_def get_appdata_path_def os_getenv_def os_path_join_def
      json_load_file_def base64_b64decode_def win32crypt_CryptUnprotectData_def
      and_then_def emit_def ret_def raise_def lift_def print_def assms split: sum.splits)

text \<open>
  C6. Whenever the \<open>Local State\<close> file is read, parsed and its
  \<open>os_crypt.encrypted_key\<close> field Base64-decoded to a blob, \<open>get_master_key\<close> calls
  \<open>CryptUnprotectData\<close> exactly once, on the blob without its first five bytes, with no
  entropy, no reserved argument, no prompt and flags 0, and returns the data DPAPI gives
  back (or \<open>None\<close> when DPAPI refuses). The first five bytes are never looked at: the
  instance below is a blob that starts with \<open>XXXXX\<close>, whose remainder is still passed on.
\<close>

theorem unprotect_receives_blob_tail:
  assumes "getenv os (ascii ''APPDATA'') = Some appdata"
    and "open_read os (path_join os appdata [ascii ''Signal'', ascii ''Local State'']) = Inr text"
    and "json_loads os text = Inr local_state"
    and "getitem local_state (ascii ''os_crypt'') = Inr os_crypt"
    and "getitem os_crypt (ascii ''encrypted_key'') = Inr (JString b64)"
    and "b64decode os b64 = Inr blob"
  shows "get_master_key os =
     (case CryptUnprotectData os (drop 5 blob) None None None 0 of
        Inl e \<Rightarrow>
          ([master_key_stage, Call_getenv (ascii ''APPDATA''),
            Call_open (path_join os appdata [ascii ''Signal'', ascii ''Local State'']),
            Call_CryptUnprotectData (drop 5 blob) None None None 0,
            Print [Txt ''   [ERROR] Failed to get master key: '', Exc e]],
           None)
      | Inr (description, master_key) \<Rightarrow>
          ([master_key_stage, Call_getenv (ascii ''APPDATA''),
            Call_open (path_join os appdata [ascii ''Signal'', ascii ''Local State'']),
            Call_CryptUnprotectData (drop 5 blob) None None None 0,
            Print [Txt ''   [SUCCESS] Master key decrypted.'']],
           Some master_key))"
  unfolding get_master_key_of_try get_master_key_try_run [OF assms]
  by (simp split: sum.splits prod.splits)

lemma demo_facts:
  "getenv demo_platform (ascii ''APPDATA'') = Some demo_appdata"
  "path_join demo_platform = demo_join"
  "open_read demo_platform (demo_join demo_appdata [ascii ''Signal'', ascii ''Local State''])
     = Inr (ascii ''local state'')"
  "json_loads demo_platform (ascii ''local state'')
     = Inr (JObject [(ascii ''os_crypt'',
              JObject [(ascii ''encrypted_key'', JString (ascii ''WFhYWFhwcm90ZWN0ZWQ=''))])])"
  "b64decode demo_platform (ascii ''WFhYWFhwcm90ZWN0ZWQ='') = Inr (bytes_of ''XXXXXprotected'')"
  "CryptUnprotectData demo_platform (bytes_of ''protected'') None None None 0
     = Inr ([], scenario_key)"
  by (simp_all add: demo_platform_def)

lemma demo_blob_tail: "drop 5 (bytes_of ''XXXXXprotected'') = bytes_of ''protected''"
  by (simp add: bytes_of_def)

lemma demo_blob_marker: "take 5 (bytes_of ''XXXXXprotected'') \<noteq> bytes_of ''DPAPI''"
  by (simp add: bytes_of_def)

theorem unprotect_receives_blob_tail_witness:
  "take 5 (bytes_of ''XXXXXprotected'') \<noteq> bytes_of ''DPAPI'' \<and>
   get_master_key demo_platform =
     ([master_key_stage, Call_getenv (ascii ''APPDATA''),
       Call_open (demo_join demo_appdata [ascii ''Signal'', ascii ''Local State'']),
       Call_CryptUnprotectData (bytes_of ''protected'') None None None 0,
       Print [Txt ''   [SUCCESS] Master key decrypted.'']],
      Some scenario_key)"
proof -
  have a: "open_read demo_platform
             (path_join demo_platform demo_appdata [ascii ''Signal'', ascii ''Local State''])
           = Inr (ascii ''local state'')"
    by (simp add: demo_facts)
  have b: "getitem (JObject [(ascii ''os_crypt'',
              JObject [(ascii ''encrypted_key'', JString (ascii ''WFhYWFhwcm90ZWN0ZWQ=''))])])
             (ascii ''os_crypt'')
           = Inr (JObject [(ascii ''encrypted_key'', JString (ascii ''WFhYWFhwcm90ZWN0ZWQ=''))])"
    by simp
  have c: "getitem (JObject [(ascii ''encrypted_key'', JString (ascii ''WFhYWFhwcm90ZWN0ZWQ=''))])
             (ascii ''encrypted_key'')
           = Inr (JString (ascii ''WFhYWFhwcm90ZWN0ZWQ=''))"
    by simp
  show ?thesis
    using unprotect_receives_blob_tail [OF demo_facts(1) a demo_facts(4) b c demo_facts(5)]
    by (simp add: demo_blob_tail demo_blob_marker demo_facts)
qed

section \<open>The orchestration (C8)\<close>

lemma hex_digit_facts:
  assumes "n < 16"
  shows "digit_value (hex_digit n) = Some n" and "\<not> is_space (hex_digit n)"
    and "hex_digit n < 128"
  using assms by (auto simp add: digit_value_def hex_digit_def is_space_def)

lemma byte_halves: "unat (x :: byte) div 16 < 16" "unat x mod 16 < 16"
proof -
  have "unat x < 2 ^ 8" using unsigned_less [of x, where 'a = nat] by simp
  then show "unat x div 16 < 16" by simp
  show "unat x mod 16 < 16" by simp
qed

lemma byte_of_halves: "(of_nat (16 * (unat (x :: byte) div 16) + unat x mod 16) :: byte) = x"
  by simp

lemma hexlify_Cons:
  "hexlify (x # bs) = hex_digit (unat x div 16) # hex_digit (unat x mod 16) # hexlify bs"
  by (simp add: hexlify_def)

lemma fromhex_loop_hexlify: "fromhex_loop pos (hexlify bs) = Inr bs"
proof (induction bs arbitrary: pos)
  case Nil
  then show ?case by (simp add: hexlify_def)
next
  case (Cons x bs)
  show ?case
    unfolding hexlify_Cons
    by (simp add: hex_digit_facts byte_halves Cons.IH cons_byte_def byte_of_halves
        del: of_nat_add of_nat_mult)
qed

lemma first_non_ascii_hexlify: "first_non_ascii pos (hexlify bs) = None"
proof (induction bs arbitrary: pos)
  case Nil
  then show ?case by (simp add: hexlify_def)
next
  case (Cons x bs)
  have "\<not> 128 \<le> hex_digit (unat x div 16)" "\<not> 128 \<le> hex_digit (unat x mod 16)"
    using hex_digit_facts(3) [OF byte_halves(1), of x] hex_digit_facts(3) [OF byte_halves(2), of x]
    by simp_all
  then show ?case unfolding hexlify_Cons by (simp add: Cons.IH)
qed

lemma bytes_fromhex_hexlify: "bytes_fromhex (JString (hexlify bs)) = ([], Inr bs)"
  by (simp add: bytes_fromhex_def first_non_ascii_hexlify fromhex_loop_hexlify lift_def)

lemma demo_config_facts:
  "open_read demo_platform (demo_join demo_appdata [ascii ''Signal'', ascii ''config.json''])
     = Inr (ascii ''config'')"
  "json_loads demo_platform (ascii ''config'')
     = Inr (JObject [(ascii ''encryptedKey'', JString (hexlify scenario_wrapped))])"
  by (simp_all add: demo_platform_def demo_join_def ascii_def)

lemma demo_master_key:
  "snd (get_master_key demo_platform) = Some scenario_key"
proof -
  have a: "open_read demo_platform
             (path_join demo_platform demo_appdata [ascii ''Signal'', ascii ''Local State''])
           = Inr (ascii ''local state'')"
    by (simp add: demo_facts)
  have b: "getitem (JObject [(ascii ''os_crypt'',
              JObject [(ascii ''encrypted_key'', JString (ascii ''WFhYWFhwcm90ZWN0ZWQ=''))])])
             (ascii ''os_crypt'')
           = Inr (JObject [(ascii ''encrypted_key'', JString (ascii ''WFhYWFhwcm90ZWN0ZWQ=''))])"
    by simp
  have c: "getitem (JObject [(ascii ''encrypted_key'', JString (ascii ''WFhYWFhwcm90ZWN0ZWQ=''))])
             (ascii ''encrypted_key'')
           = Inr (JString (ascii ''WFhYWFhwcm90ZWN0ZWQ=''))"
    by simp
  show ?thesis
    unfolding get_master_key_of_try
      get_master_key_try_run [OF demo_facts(1) a demo_facts(4) b c demo_facts(5)]
    by (simp add: demo_blob_tail demo_facts)
qed

lemma demo_wrapped_key:
  "get_wrapped_db_key demo_platform =
     ([wrapped_key_stage, Call_getenv (ascii ''APPDATA''),
       Call_open (demo_join demo_appdata [ascii ''Signal'', ascii ''config.json'']),
       Print [Txt ''   [SUCCESS] Found and decoded wrapped key from config.json.'']],
      Some scenario_wrapped)"
  by (simp add: get_wrapped_db_key_def get_wrapped_db_key_try_def get_appdata_path_def
      os_getenv_def os_path_join_def json_load_file_def demo_facts demo_config_facts
      bytes_fromhex_hexlify and_then_def emit_def ret_def raise_def lift_def print_def)

lemma demo_final_key:
  "snd (decrypt_db_key scenario_key scenario_wrapped)
   = Some (ascii (''0x'' @ replicate 64 CHR ''a''))"
proof -
  have a: "\<forall>c \<in> set scenario_plaintext. (of_char c :: nat) < 128"
    by (simp add: scenario_plaintext_def)
  have e: "encrypt_and_digest scenario_key scenario_nonce (bytes_of scenario_plaintext)
           = (scenario_ciphertext, scenario_tag)"
    by (simp add: scenario_ciphertext_def scenario_tag_def)
  have k: "length scenario_key \<in> {16, 24, 32}" by (simp add: scenario_lengths)
  have lp: "int (length scenario_plaintext) \<le> 2 ^ 36" by (simp add: scenario_lengths)
  show ?thesis
    unfolding scenario_wrapped_def
      roundtrip_ascii [OF disjI1 [OF refl] scenario_lengths(2) k a lp e]
    by (simp add: ascii_def scenario_plaintext_def)
qed

lemma demo_nonempty: "scenario_key \<noteq> []" "scenario_wrapped \<noteq> []"
  by (simp_all add: scenario_key_def scenario_wrapped_def bytes_of_def)

text \<open>
  C8. In every run of the main block, the first lines of the three stages and the line
  that prints the key occur as follows, in this order and each at most once: the master
  key stage always; the wrapped key stage only when the master key was obtained (and is
  not empty); the unwrapping only when the wrapped key was obtained too; the key is
  printed, once, only when unwrapping returned it. No stage is entered after an earlier
  one failed, and none is entered twice.
\<close>

theorem orchestrator_stages:
  "stage_marks (main os) =
     (case snd (get_master_key os) of
        None \<Rightarrow> [master_key_stage]
      | Some master_key \<Rightarrow>
          if master_key = [] then [master_key_stage]
          else
            (case snd (get_wrapped_db_key os) of
               None \<Rightarrow> [master_key_stage, wrapped_key_stage]
             | Some wrapped_key \<Rightarrow>
                 if wrapped_key = [] then [master_key_stage, wrapped_key_stage]
                 else
                   (case snd (decrypt_db_key master_key wrapped_key) of
                      None \<Rightarrow> [master_key_stage, wrapped_key_stage, start_line]
                    | Some final_key \<Rightarrow>
                        [master_key_stage, wrapped_key_stage, start_line,
                         Print [Val final_key]])))"
proof -
  obtain t1 mk where g1: "get_master_key os = (t1, mk)" by (cases "get_master_key os")
  obtain t2 wk where g2: "get_wrapped_db_key os = (t2, wk)" by (cases "get_wrapped_db_key os")
  have m1: "stage_marks t1 = [master_key_stage]"
    using stage_marks_get_master_key [of os] g1 by simp
  have m2: "stage_marks t2 = [wrapped_key_stage]"
    using stage_marks_get_wrapped_db_key [of os] g2 by simp
  have m3: "\<And>k w t3 r. decrypt_db_key k w = (t3, r) \<Longrightarrow> stage_marks t3 = [start_line]"
    using stage_marks_decrypt_db_key by (metis fst_conv)
  show ?thesis
    unfolding main_def g1 g2
    by (auto simp add: stage_marks_simps m1 m2 dest: m3 decrypt_db_key_value_nonempty
        split: option.splits prod.splits)
qed

theorem orchestrator_stages_witness:
  "stage_marks (main demo_platform) =
     [master_key_stage, wrapped_key_stage, start_line,
      Print [Val (ascii (''0x'' @ replicate 64 CHR ''a''))]]"
  using orchestrator_stages [of demo_platform]
  by (simp add: demo_master_key demo_wrapped_key demo_final_key demo_nonempty)

section \<open>The application-data directory (C10)\<close>

lemma roaming_get_master_key: "list_all roaming_only (fst (get_master_key os))"
proof (cases "get_master_key_try os")
  case (Pair t r)
  have "list_all roaming_only (fst (get_master_key_try os))"
    by (rule all_get_master_key_try) simp_all
  with Pair show ?thesis by (cases r) (simp_all add: get_master_key_of_try)
qed

lemma roaming_get_wrapped_db_key: "list_all roaming_only (fst (get_wrapped_db_key os))"
proof (cases "get_wrapped_db_key_try os")
  case (Pair t r)
  have "list_all roaming_only (fst (get_wrapped_db_key_try os))"
    by (rule all_get_wrapped_db_key_try) simp_all
  with Pair show ?thesis by (cases r) (simp_all add: get_wrapped_db_key_of_try)
qed

lemma roaming_decrypt_db_key: "list_all roaming_only (fst (decrypt_db_key k w))"
proof (cases "decrypt_db_key_try k w")
  case (Pair t r)
  have "list_all roaming_only (fst (decrypt_db_key_try k w))"
    by (rule all_decrypt_db_key_try) simp_all
  with Pair show ?thesis by (cases r) (simp_all add: decrypt_db_key_of_try)
qed

lemma all_when_truthy:
  "(\<And>v. list_all P (f v)) \<Longrightarrow> list_all P (when_truthy x f)"
  by (cases x) simp_all

lemma all_case_prod:
  assumes "list_all P (fst p)" and "\<And>x. list_all P (g x)"
  shows "list_all P (case p of (t, x) \<Rightarrow> t @ g x)"
  using assms by (cases p) simp

lemma roaming_main: "list_all roaming_only (main os)"
  unfolding main_def
  by (auto intro!: all_case_prod all_when_truthy roaming_get_master_key
      roaming_get_wrapped_db_key roaming_decrypt_db_key)

lemma fst_get_master_key:
  "fst (get_master_key os) =
     master_key_stage # fst (get_master_key_try os)
       @ (case snd (get_master_key_try os) of
            Inl e \<Rightarrow> [Print [Txt ''   [ERROR] Failed to get master key: '', Exc e]]
          | Inr v \<Rightarrow> [])"
  by (simp add: get_master_key_of_try split: prod.splits sum.splits)

lemma get_master_key_try_no_appdata:
  assumes "getenv os (ascii ''APPDATA'') = None"
  shows "get_master_key_try os = ([Call_getenv (ascii ''APPDATA'')], Inl TypeError)"
  by (rule prod_eqI)
     (simp_all add: get_master_key_try_def get_appdata_path_def os_getenv_def os_path_join_def
       fst_and_then snd_and_then emit_def ret_def raise_def assms)

lemma get_master_key_try_opens:
  assumes "getenv os (ascii ''APPDATA'') = Some d"
  shows "\<exists>t. fst (get_master_key_try os) =
           Call_getenv (ascii ''APPDATA'')
           # Call_open (path_join os d [ascii ''Signal'', ascii ''Local State'']) # t"
  by (simp add: get_master_key_try_def get_appdata_path_def os_getenv_def os_path_join_def
      json_load_file_def fst_and_then snd_and_then emit_def ret_def raise_def assms)

lemma get_master_key_first_events:
  "take 3 (fst (get_master_key os)) =
     [master_key_stage, Call_getenv (ascii ''APPDATA''),
      case getenv os (ascii ''APPDATA'') of
        None \<Rightarrow> Print [Txt ''   [ERROR] Failed to get master key: '', Exc TypeError]
      | Some d \<Rightarrow> Call_open (path_join os d [ascii ''Signal'', ascii ''Local State''])]"
proof (cases "getenv os (ascii ''APPDATA'')")
  case None
  then show ?thesis
    by (simp add: fst_get_master_key get_master_key_try_no_appdata)
next
  case (Some d)
  from get_master_key_try_opens [OF Some] obtain t where
    "fst (get_master_key_try os) =
       Call_getenv (ascii ''APPDATA'')
       # Call_open (path_join os d [ascii ''Signal'', ascii ''Local State'']) # t"
    by blast
  then show ?thesis using Some by (simp add: fst_get_master_key)
qed

text \<open>
  C10. In every run of the main block the only environment variable read is \<open>APPDATA\<close>
  (the \<open>local=True\<close> branch of \<open>get_appdata_path\<close>, which reads \<open>LOCALAPPDATA\<close>, is never
  taken), and \<open>get_master_key\<close> begins by reading \<open>APPDATA\<close> and opening the file
  \<open>Signal/Local State\<close> joined to its value (failing with a \<open>TypeError\<close> when the
  variable is not set).
\<close>

theorem roaming_appdata:
  "list_all roaming_only (main os) \<and>
   take 3 (fst (get_master_key os)) =
     [master_key_stage, Call_getenv (ascii ''APPDATA''),
      case getenv os (ascii ''APPDATA'') of
        None \<Rightarrow> Print [Txt ''   [ERROR] Failed to get master key: '', Exc TypeError]
      | Some d \<Rightarrow> Call_open (path_join os d [ascii ''Signal'', ascii ''Local State''])]"
  by (simp add: roaming_main get_master_key_first_events)

theorem roaming_appdata_witness:
  "list_all roaming_only (main demo_platform) \<and>
   take 3 (fst (get_master_key demo_platform)) =
     [master_key_stage, Call_getenv (ascii ''APPDATA''),
      Call_open (demo_join demo_appdata [ascii ''Signal'', ascii ''Local State''])]"
  using roaming_appdata [of demo_platform] by (simp add: demo_facts)

section \<open>The analytics queries (C9)\<close>

lemma fst_get_message_counts:
  "fst (get_message_counts pd data) = with_datetime_timestamp pd data"
  by (simp add: get_message_counts_def with_datetime_timestamp_def try_then_def
      split: sum.splits)

lemma fst_get_active_hours:
  "fst (get_active_hours pd data) = with_datetime_timestamp pd data"
  by (simp add: get_active_hours_def with_datetime_timestamp_def try_then_def
      split: sum.splits)

lemma fst_get_top_contacts: "fst (get_top_contacts pd data n) = data"
  by (simp add: get_top_contacts_def)

lemma fst_get_message_distribution: "fst (get_message_distribution pd data) = data"
  by (simp add: get_message_distribution_def)

lemma fst_run_query:
  "fst (run_query pd q data) = (if converts q then with_datetime_timestamp pd data else data)"
  by (cases q)
     (simp_all add: run_query_def converts_def fst_get_message_counts fst_get_active_hours
        fst_get_top_contacts fst_get_message_distribution)

lemma names_differ:
  "ascii ''contact'' \<noteq> ascii ''timestamp''" "ascii ''type'' \<noteq> ascii ''timestamp''"
  by (simp_all add: ascii_def)

lemma with_datetime_timestamp_cases:
  assumes "assignment_replaces_timestamp pd data"
  obtains (same) "with_datetime_timestamp pd data = data"
        | (conv) timestamp converted data' where
            "frame_getitem pd data (ascii ''timestamp'') = Inr timestamp"
            "is_numeric_dtype pd timestamp"
            "to_datetime_ms pd timestamp = Inr converted"
            "frame_setitem pd data (ascii ''timestamp'') converted = Inr data'"
            "with_datetime_timestamp pd data = data'"
            "frame_getitem pd data' (ascii ''timestamp'') = Inr converted"
            "\<not> is_numeric_dtype pd converted"
            "frame_getitem pd data' (ascii ''contact'') = frame_getitem pd data (ascii ''contact'')"
            "frame_getitem pd data' (ascii ''type'') = frame_getitem pd data (ascii ''type'')"
            "has_column pd data' (ascii ''type'') = has_column pd data (ascii ''type'')"
            "len_data pd data' = len_data pd data"
proof (cases "frame_getitem pd data (ascii ''timestamp'')")
  case (Inl e)
  then show ?thesis
    using same by (simp add: with_datetime_timestamp_def)
next
  case g: (Inr timestamp)
  show ?thesis
  proof (cases "is_numeric_dtype pd timestamp")
    case False
    then show ?thesis
      using same g by (simp add: with_datetime_timestamp_def)
  next
    case n: True
    show ?thesis
    proof (cases "to_datetime_ms pd timestamp")
      case (Inl e)
      then show ?thesis
        using same g n
        by (simp add: with_datetime_timestamp_def)
    next
      case c: (Inr converted)
      show ?thesis
      proof (cases "frame_setitem pd data (ascii ''timestamp'') converted")
        case (Inl e)
        then show ?thesis
          using same g n c
          by (simp add: with_datetime_timestamp_def)
      next
        case s: (Inr data')
        have w: "with_datetime_timestamp pd data = data'"
          using g n c s by (simp add: with_datetime_timestamp_def)
        from assms g n c s
        have "frame_getitem pd data' (ascii ''timestamp'') = Inr converted
              \<and> \<not> is_numeric_dtype pd converted
              \<and> frame_getitem pd data' (ascii ''contact'')
                  = frame_getitem pd data (ascii ''contact'')
              \<and> frame_getitem pd data' (ascii ''type'')
                  = frame_getitem pd data (ascii ''type'')
              \<and> has_column pd data' (ascii ''type'') = has_column pd data (ascii ''type'')
              \<and> len_data pd data' = len_data pd data"
          by (simp add: assignment_replaces_timestamp_def)
        then show ?thesis
          using conv [OF g n c s w] by blast
      qed
    qed
  qed
qed

lemma with_datetime_timestamp_converted:
  "frame_getitem pd d (ascii ''timestamp'') = Inr c \<Longrightarrow> \<not> is_numeric_dtype pd c \<Longrightarrow>
   with_datetime_timestamp pd d = d"
  by (simp add: with_datetime_timestamp_def)

lemma with_datetime_timestamp_idem:
  assumes "assignment_replaces_timestamp pd data"
  shows "with_datetime_timestamp pd (with_datetime_timestamp pd data)
         = with_datetime_timestamp pd data"
  using assms
proof (cases rule: with_datetime_timestamp_cases)
  case same
  then show ?thesis by simp
next
  case (conv timestamp converted data')
  then show ?thesis by (simp add: with_datetime_timestamp_converted)
qed

lemma snd_run_query_converted:
  assumes "assignment_replaces_timestamp pd data"
  shows "snd (run_query pd q (with_datetime_timestamp pd data)) = snd (run_query pd q data)"
  using assms
proof (cases rule: with_datetime_timestamp_cases)
  case same
  then show ?thesis by simp
next
  case (conv timestamp converted data')
  show ?thesis
    by (cases q)
       (simp_all add: run_query_def get_message_counts_def get_active_hours_def
          get_top_contacts_def get_message_distribution_def try_then_def conv)
qed



text \<open>
  Repeated and reordered queries. On a dataset where the assignment, when it is made,
  replaces the timestamp by a value that is not of numeric dtype and leaves the \<open>contact\<close>
  and \<open>type\<close> columns, the presence of \<open>type\<close> and the number of rows as they were:
  running a query again changes nothing further, two queries leave the same dataset in
  either order, and every query returns after any other query what it returns on the
  original dataset.
\<close>

theorem repeated_queries:
  assumes "assignment_replaces_timestamp pd data"
  shows "fst (run_query pd q (fst (run_query pd q data))) = fst (run_query pd q data)
     \<and> fst (run_query pd q' (fst (run_query pd q data)))
       = fst (run_query pd q (fst (run_query pd q' data)))
     \<and> snd (run_query pd q' (fst (run_query pd q data))) = snd (run_query pd q' data)"
  using with_datetime_timestamp_idem [OF assms] snd_run_query_converted [OF assms]
  by (simp add: fst_run_query)

theorem repeated_queries_witness:
  "assignment_replaces_timestamp table_pandas
     [(ascii ''timestamp'', Int64 [1000]), (ascii ''contact'', Int64 [7])]
   \<and> fst (run_query table_pandas Active_hours_query (fst (run_query table_pandas Active_hours_query
          [(ascii ''timestamp'', Int64 [1000]), (ascii ''contact'', Int64 [7])])))
     = [(ascii ''timestamp'', Datetime64 [1000000000]), (ascii ''contact'', Int64 [7])]
   \<and> snd (run_query table_pandas Message_counts_query (fst (run_query table_pandas Active_hours_query
          [(ascii ''timestamp'', Int64 [1000]), (ascii ''contact'', Int64 [7])])))
     = Inr (Message_counts (Dict [(Int_cell 0, 1)]) (Dict [(Int_cell 0, 1)]))"
proof -
  let ?d = "[(ascii ''timestamp'', Int64 [1000]), (ascii ''contact'', Int64 [7])]"
  let ?d' = "[(ascii ''timestamp'', Datetime64 [1000000000]), (ascii ''contact'', Int64 [7])]"
  have a: "assignment_replaces_timestamp table_pandas ?d"
    by (simp add: assignment_replaces_timestamp_def table_pandas_def names_differ
        column_length_def)
  have f: "fst (run_query table_pandas Active_hours_query ?d) = ?d'"
    by (simp add: run_query_def get_active_hours_def try_then_def table_pandas_def)
  have r: "snd (run_query table_pandas Message_counts_query ?d)
           = Inr (Message_counts (Dict [(Int_cell 0, 1)]) (Dict [(Int_cell 0, 1)]))"
    by (simp add: run_query_def get_message_counts_def try_then_def table_pandas_def
        group_sizes_def date_of_def hour_of_def)
  note t = repeated_queries [OF a, of Active_hours_query Message_counts_query]
  have t1: "fst (run_query table_pandas Active_hours_query
                  (fst (run_query table_pandas Active_hours_query ?d)))
            = fst (run_query table_pandas Active_hours_query ?d)"
    by (rule t [THEN conjunct1])
  have t3: "snd (run_query table_pandas Message_counts_query
                  (fst (run_query table_pandas Active_hours_query ?d)))
            = snd (run_query table_pandas Message_counts_query ?d)"
    by (rule t [THEN conjunct2, THEN conjunct2])
  have g: "fst (run_query table_pandas Active_hours_query
                 (fst (run_query table_pandas Active_hours_query ?d))) = ?d'"
    by (rule trans [OF t1 f])
  have h: "snd (run_query table_pandas Message_counts_query
                 (fst (run_query table_pandas Active_hours_query ?d)))
           = Inr (Message_counts (Dict [(Int_cell 0, 1)]) (Dict [(Int_cell 0, 1)]))"
    by (rule trans [OF t3 r])
  from a g h show ?thesis by (intro conjI)
qed

end
